theory Spec2Isabelle
  imports Complex_Main "HOL-Library.AList"
begin

section \<open>JavaScript values\<close>

text \<open>
  The engine passes untyped JavaScript values (\<^verbatim>\<open>any\<close>) between nodes. They are
  modelled as JSON-like data. A number is the exact value of the double it stands for, with
  the three non-finite doubles as constructors of their own (the two zeros are one value:
  nothing in the engine tells them apart). A string is a list of characters. An object is
  the list of its own properties, an array the list of its elements. Members that built-in
  prototypes add to every object (\<^verbatim>\<open>toString\<close>, \<^verbatim>\<open>constructor\<close> and the like) are
  functions, which this data model does not contain.
\<close>

datatype jsnum = NaN | NegInf | Fin rat | PosInf

datatype jsval =
    JUndefined
  | JNull
  | JBool bool
  | JNum jsnum
  | JStr string
  | JArr "jsval list"
  | JObj "(string \<times> jsval) list"

text \<open>
  What the language runtime does and this model does not compute is taken as a parameter:
  the decimal rendering of a finite number, the parsing of a string into a number, the
  regular-expression engine (\<open>None\<close>: the pattern does not compile, the constructor throws
  a SyntaxError), and the identity of two heap objects, which \<^verbatim>\<open>===\<close> compares and a
  value without addresses cannot decide.
\<close>

record js_builtins =
  numberToString :: "rat \<Rightarrow> string"
  stringToNumber :: "string \<Rightarrow> jsnum"
  regExpTest :: "string \<Rightarrow> string \<Rightarrow> bool option"
  sameObject :: "jsval \<Rightarrow> jsval \<Rightarrow> bool"

datatype NodeType =
    AGENT | TRIGGER | CONDITION | OUTPUT
  | TRIGGER_WEBHOOK | TRIGGER_SCHEDULE | TRIGGER_FORM | TRIGGER_EVENT | TRIGGER_MANUAL
  | ACTION_HTTP | ACTION_CODE | ACTION_SET | ACTION_MERGE | ACTION_SPLIT | ACTION_FILTER
  | ACTION_SWITCH | ACTION_LOOP | ACTION_WAIT | ACTION_RESPOND
  | ACTION_EMAIL | ACTION_SLACK | ACTION_DISCORD | ACTION_TELEGRAM | ACTION_GOOGLE_SHEETS
  | ACTION_DATABASE | ACTION_S3
  | ACTION_AI_CHAT | ACTION_AI_SUMMARIZE | ACTION_AI_CLASSIFY | ACTION_AI_TRANSFORM
  | ACTION_FUNCTION | ACTION_ERROR_TRIGGER | ACTION_SUBWORKFLOW

text \<open>Everything the modelled code throws.\<close>

datatype error =
    NoStartNode
  | HandlerNotFound NodeType
  | HandlerError string
  | TypeError
  | SyntaxError string
  | WorkflowNotFound string
  | InvalidCronExpression string

text \<open>\<^verbatim>\<open>ToBoolean\<close>: what \<^verbatim>\<open>||\<close>, \<^verbatim>\<open>&&\<close> and \<^verbatim>\<open>if\<close> test.\<close>

fun truthy :: "jsval \<Rightarrow> bool" where
  "truthy JUndefined = False"
| "truthy JNull = False"
| "truthy (JBool b) = b"
| "truthy (JNum n) = (n \<noteq> NaN \<and> n \<noteq> Fin 0)"
| "truthy (JStr s) = (s \<noteq> [])"
| "truthy (JArr xs) = True"
| "truthy (JObj kvs) = True"

text \<open>\<^verbatim>\<open>typeof v === 'object'\<close>.\<close>

fun typeofObject :: "jsval \<Rightarrow> bool" where
  "typeofObject JNull = True"
| "typeofObject (JArr xs) = True"
| "typeofObject (JObj kvs) = True"
| "typeofObject v = False"

text \<open>\<^verbatim>\<open>a || b\<close> on values.\<close>

definition orElse :: "jsval \<Rightarrow> jsval \<Rightarrow> jsval" where
  "orElse a b = (if truthy a then a else b)"

fun joinWith :: "string \<Rightarrow> string list \<Rightarrow> string" where
  "joinWith sep [] = []"
| "joinWith sep [x] = x"
| "joinWith sep (x # y # ys) = x @ sep @ joinWith sep (y # ys)"

text \<open>\<^verbatim>\<open>String(v)\<close>; an array joins its elements with commas, null and undefined
  elements giving the empty string.\<close>

fun ToString :: "js_builtins \<Rightarrow> jsval \<Rightarrow> string" where
  "ToString js JUndefined = ''undefined''"
| "ToString js JNull = ''null''"
| "ToString js (JBool b) = (if b then ''true'' else ''false'')"
| "ToString js (JNum n) =
     (case n of NaN \<Rightarrow> ''NaN'' | PosInf \<Rightarrow> ''Infinity'' | NegInf \<Rightarrow> ''-Infinity''
      | Fin q \<Rightarrow> numberToString js q)"
| "ToString js (JStr s) = s"
| "ToString js (JArr xs) =
     joinWith '','' (map (\<lambda>x. if x = JUndefined \<or> x = JNull then [] else ToString js x) xs)"
| "ToString js (JObj kvs) = ''[object Object]''"

text \<open>\<^verbatim>\<open>ToPrimitive\<close> and \<^verbatim>\<open>ToNumber\<close>, as the relational operators apply them.\<close>

fun ToPrimitive :: "js_builtins \<Rightarrow> jsval \<Rightarrow> jsval" where
  "ToPrimitive js (JArr xs) = JStr (ToString js (JArr xs))"
| "ToPrimitive js (JObj kvs) = JStr (ToString js (JObj kvs))"
| "ToPrimitive js v = v"

fun ToNumber :: "js_builtins \<Rightarrow> jsval \<Rightarrow> jsnum" where
  "ToNumber js JUndefined = NaN"
| "ToNumber js JNull = Fin 0"
| "ToNumber js (JBool b) = Fin (if b then 1 else 0)"
| "ToNumber js (JNum n) = n"
| "ToNumber js (JStr s) = stringToNumber js s"
| "ToNumber js v = stringToNumber js (ToString js v)"

text \<open>Order of two numbers; \<open>None\<close> is the \<^verbatim>\<open>undefined\<close> that a NaN operand gives.\<close>

fun numLess :: "jsnum \<Rightarrow> jsnum \<Rightarrow> bool option" where
  "numLess NaN y = None"
| "numLess x NaN = None"
| "numLess (Fin a) (Fin b) = Some (a < b)"
| "numLess NegInf y = Some (y \<noteq> NegInf)"
| "numLess x PosInf = Some (x \<noteq> PosInf)"
| "numLess x y = Some False"

text \<open>Order of two strings: by code unit, a proper prefix first.\<close>

fun stringLess :: "string \<Rightarrow> string \<Rightarrow> bool" where
  "stringLess [] [] = False"
| "stringLess [] (y # ys) = True"
| "stringLess (x # xs) [] = False"
| "stringLess (x # xs) (y # ys) =
     (if (of_char x :: nat) < of_char y then True
      else if (of_char y :: nat) < of_char x then False
      else stringLess xs ys)"

text \<open>The abstract relational comparison \<^verbatim>\<open>x < y\<close> of the language, three-valued.\<close>

definition isLessThan :: "js_builtins \<Rightarrow> jsval \<Rightarrow> jsval \<Rightarrow> bool option" where
  "isLessThan js x y =
     (case (ToPrimitive js x, ToPrimitive js y) of
        (JStr a, JStr b) \<Rightarrow> Some (stringLess a b)
      | (px, py) \<Rightarrow> numLess (ToNumber js px) (ToNumber js py))"

text \<open>\<^verbatim>\<open>x === y\<close>.\<close>

fun strictEquals :: "js_builtins \<Rightarrow> jsval \<Rightarrow> jsval \<Rightarrow> bool" where
  "strictEquals js JUndefined JUndefined = True"
| "strictEquals js JNull JNull = True"
| "strictEquals js (JBool a) (JBool b) = (a = b)"
| "strictEquals js (JNum a) (JNum b) = (a \<noteq> NaN \<and> a = b)"
| "strictEquals js (JStr a) (JStr b) = (a = b)"
| "strictEquals js (JArr a) (JArr b) = sameObject js (JArr a) (JArr b)"
| "strictEquals js (JObj a) (JObj b) = sameObject js (JObj a) (JObj b)"
| "strictEquals js x y = False"

text \<open>\<^verbatim>\<open>s.includes(t)\<close>.\<close>

fun stringIncludes :: "string \<Rightarrow> string \<Rightarrow> bool" where
  "stringIncludes [] t = (t = [])"
| "stringIncludes (c # s) t = (take (length t) (c # s) = t \<or> stringIncludes s t)"

text \<open>\<^verbatim>\<open>s.split('.')\<close>: never empty, the empty string splits into one empty part.\<close>

fun split :: "char \<Rightarrow> string \<Rightarrow> string list" where
  "split d [] = [[]]"
| "split d (c # cs) =
     (if c = d then [] # split d cs
      else (case split d cs of [] \<Rightarrow> [[c]] | w # ws \<Rightarrow> (c # w) # ws))"

subsection \<open>Property access\<close>

text \<open>An array index is a canonical decimal numeral: digits only, no leading zero.\<close>

definition isDigit :: "char \<Rightarrow> bool" where
  "isDigit c = (48 \<le> (of_char c :: nat) \<and> (of_char c :: nat) \<le> 57)"

definition arrayIndex :: "string \<Rightarrow> nat option" where
  "arrayIndex s =
     (if s = [] \<or> \<not> list_all isDigit s \<or> (hd s = CHR ''0'' \<and> length s > 1) then None
      else Some (foldl (\<lambda>n c. 10 * n + (of_char c - 48)) 0 s))"

text \<open>
  \<^verbatim>\<open>obj[key]\<close>: reading a property of null or undefined throws a TypeError; a property
  that is not there reads as undefined.
\<close>

fun getProperty :: "jsval \<Rightarrow> string \<Rightarrow> error + jsval" where
  "getProperty JUndefined key = Inl TypeError"
| "getProperty JNull key = Inl TypeError"
| "getProperty (JObj kvs) key =
     Inr (case map_of kvs key of None \<Rightarrow> JUndefined | Some v \<Rightarrow> v)"
| "getProperty (JArr xs) key =
     Inr (if key = ''length'' then JNum (Fin (of_nat (length xs)))
          else (case arrayIndex key of
                  None \<Rightarrow> JUndefined
                | Some i \<Rightarrow> if i < length xs then xs ! i else JUndefined))"
| "getProperty (JStr s) key =
     Inr (if key = ''length'' then JNum (Fin (of_nat (length s)))
          else (case arrayIndex key of
                  None \<Rightarrow> JUndefined
                | Some i \<Rightarrow> if i < length s then JStr [s ! i] else JUndefined))"
| "getProperty v key = Inr JUndefined"

text \<open>\<^verbatim>\<open>acc?.[part]\<close>: undefined on null and undefined, the property otherwise.\<close>

definition optionalChain :: "jsval \<Rightarrow> string \<Rightarrow> error + jsval" where
  "optionalChain acc part =
     (if acc = JUndefined \<or> acc = JNull then Inr JUndefined else getProperty acc part)"

text \<open>\<^verbatim>\<open>parts.reduce((acc, part) => acc?.[part], obj)\<close>; a throwing step ends the
  reduction.\<close>

fun reduceChain :: "jsval \<Rightarrow> string list \<Rightarrow> error + jsval" where
  "reduceChain acc [] = Inr acc"
| "reduceChain acc (part # parts) =
     (case optionalChain acc part of
        Inl e \<Rightarrow> Inl e
      | Inr v \<Rightarrow> reduceChain v parts)"

definition getNestedValue :: "jsval \<Rightarrow> string \<Rightarrow> error + jsval" where
  "getNestedValue obj path = reduceChain obj (split CHR ''.'' path)"

subsection \<open>Edge conditions\<close>

record EdgeCondition =
  condField :: string
  condOperator :: string
  condValue :: jsval

text \<open>The pattern \<^verbatim>\<open>new RegExp(value)\<close> compiles: empty for undefined.\<close>

definition regExpSource :: "js_builtins \<Rightarrow> jsval \<Rightarrow> string" where
  "regExpSource js v = (if v = JUndefined then [] else ToString js v)"

definition evaluateCondition ::
  "js_builtins \<Rightarrow> EdgeCondition option \<Rightarrow> jsval \<Rightarrow> error + bool" where
  "evaluateCondition js condition data =
     (case condition of
        None \<Rightarrow> Inr True
      | Some c \<Rightarrow>
          (case getNestedValue data (condField c) of
             Inl e \<Rightarrow> Inl e
           | Inr fieldValue \<Rightarrow>
               let v = condValue c; operator = condOperator c in
               if operator = ''eq'' then Inr (strictEquals js fieldValue v)
               else if operator = ''neq'' then Inr (\<not> strictEquals js fieldValue v)
               else if operator = ''gt'' then Inr (isLessThan js v fieldValue = Some True)
               else if operator = ''gte'' then Inr (isLessThan js fieldValue v = Some False)
               else if operator = ''lt'' then Inr (isLessThan js fieldValue v = Some True)
               else if operator = ''lte'' then Inr (isLessThan js v fieldValue = Some False)
               else if operator = ''contains'' then
                 Inr (stringIncludes (ToString js fieldValue) (ToString js v))
               else if operator = ''regex'' then
                 (case regExpTest js (regExpSource js v) (ToString js fieldValue) of
                    None \<Rightarrow> Inl (SyntaxError (regExpSource js v))
                  | Some b \<Rightarrow> Inr b)
               else Inr True))"

section \<open>Workflow definitions\<close>

text \<open>
  The interfaces of the core types. Fields that only the graph editor reads (node
  positions, edge handles) are left out.
\<close>

record WorkflowNode =
  nodeId :: string
  nodeType :: NodeType
  nodeName :: string
  config :: jsval
  credentialId :: "string option"

record WorkflowEdge =
  edgeId :: string
  source :: string
  target :: string
  condition :: "EdgeCondition option"

datatype ErrorHandling = Stop | Continue | Retry

record WorkflowSettings =
  errorHandling :: "ErrorHandling option"
  maxRetries :: "nat option"
  timeout :: "nat option"

record WorkflowDefinition =
  workflowId :: string
  workflowName :: string
  nodes :: "WorkflowNode list"
  edges :: "WorkflowEdge list"
  settings :: "WorkflowSettings option"

datatype ExecutionMode = Manual | Webhook | Schedule | RetryMode | Subworkflow

text \<open>
  The execution context. \<open>nodeOutputs\<close> is a JavaScript \<^verbatim>\<open>Map\<close>: a list of
  entries in insertion order, written with \<^const>\<open>AList.update\<close> (an existing key keeps
  its place and takes the new value, a new key goes to the end) and read with
  \<^const>\<open>map_of\<close>. An absent input is \<^const>\<open>JUndefined\<close>.
\<close>

record ExecutionContext =
  executionId :: string
  ctxWorkflowId :: string
  userId :: "string option"
  mode :: ExecutionMode
  input :: jsval
  nodeOutputs :: "(string \<times> jsval) list"

datatype NodeStatus = NodeSuccess | NodeError | NodeSkipped

text \<open>A node's result; the two timestamps are left out. Absent data is
  \<^const>\<open>JUndefined\<close>.\<close>

record NodeExecutionResult =
  resNodeId :: string
  resStatus :: NodeStatus
  resData :: jsval
  resError :: "error option"

text \<open>
  A node handler: given the node, its input and the context, it returns an output or
  throws an error with a message (\<open>Inl\<close>). It reads the context and its input and
  writes neither, as the registry's contract asks. The registry that maps a node type to its handler is
  not part of the engine; the engine only calls its \<^verbatim>\<open>getHandler\<close>, which is a
  parameter here, together with the language built-ins.
\<close>

type_synonym NodeHandler = "WorkflowNode \<Rightarrow> jsval \<Rightarrow> ExecutionContext \<Rightarrow> string + jsval"

record engine_env =
  getHandler :: "NodeType \<Rightarrow> NodeHandler option"
  builtins :: js_builtins

text \<open>
  The engine's mutable state: the context \<open>ctx\<close>, the set \<open>executedNodes\<close> (a JavaScript
  \<^verbatim>\<open>Set\<close>, as the list of its members in insertion order) and the map
  \<open>nodeResults\<close>. The field \<open>invoked\<close> is not in the source: it logs, in order, the
  node ids whose handler was called, so that properties of handler invocation can be stated.
\<close>

record engine_state =
  ctx :: ExecutionContext
  executedNodes :: "string list"
  nodeResults :: "(string \<times> NodeExecutionResult) list"
  invoked :: "string list"

text \<open>\<^verbatim>\<open>Set.prototype.add\<close>.\<close>

definition setAdd :: "'a \<Rightarrow> 'a list \<Rightarrow> 'a list" where
  "setAdd x xs = (if x \<in> set xs then xs else xs @ [x])"

text \<open>\<^verbatim>\<open>Map.prototype.get\<close>: undefined for a missing key.\<close>

definition mapGet :: "(string \<times> jsval) list \<Rightarrow> string \<Rightarrow> jsval" where
  "mapGet m k = (case map_of m k of None \<Rightarrow> JUndefined | Some v \<Rightarrow> v)"

definition setNodeOutput :: "string \<Rightarrow> jsval \<Rightarrow> engine_state \<Rightarrow> engine_state" where
  "setNodeOutput k v st =
     st\<lparr>ctx := (ctx st)\<lparr>nodeOutputs := AList.update k v (nodeOutputs (ctx st))\<rparr>\<rparr>"

section \<open>The execution engine\<close>

text \<open>\<^verbatim>\<open>type.startsWith('TRIGGER_')\<close> works on the enum's string value.\<close>

fun nodeTypeTag :: "NodeType \<Rightarrow> string" where
  "nodeTypeTag AGENT = ''AGENT''"
| "nodeTypeTag TRIGGER = ''TRIGGER''"
| "nodeTypeTag CONDITION = ''CONDITION''"
| "nodeTypeTag OUTPUT = ''OUTPUT''"
| "nodeTypeTag TRIGGER_WEBHOOK = ''TRIGGER_WEBHOOK''"
| "nodeTypeTag TRIGGER_SCHEDULE = ''TRIGGER_SCHEDULE''"
| "nodeTypeTag TRIGGER_FORM = ''TRIGGER_FORM''"
| "nodeTypeTag TRIGGER_EVENT = ''TRIGGER_EVENT''"
| "nodeTypeTag TRIGGER_MANUAL = ''TRIGGER_MANUAL''"
| "nodeTypeTag ACTION_HTTP = ''ACTION_HTTP''"
| "nodeTypeTag ACTION_CODE = ''ACTION_CODE''"
| "nodeTypeTag ACTION_SET = ''ACTION_SET''"
| "nodeTypeTag ACTION_MERGE = ''ACTION_MERGE''"
| "nodeTypeTag ACTION_SPLIT = ''ACTION_SPLIT''"
| "nodeTypeTag ACTION_FILTER = ''ACTION_FILTER''"
| "nodeTypeTag ACTION_SWITCH = ''ACTION_SWITCH''"
| "nodeTypeTag ACTION_LOOP = ''ACTION_LOOP''"
| "nodeTypeTag ACTION_WAIT = ''ACTION_WAIT''"
| "nodeTypeTag ACTION_RESPOND = ''ACTION_RESPOND''"
| "nodeTypeTag ACTION_EMAIL = ''ACTION_EMAIL''"
| "nodeTypeTag ACTION_SLACK = ''ACTION_SLACK''"
| "nodeTypeTag ACTION_DISCORD = ''ACTION_DISCORD''"
| "nodeTypeTag ACTION_TELEGRAM = ''ACTION_TELEGRAM''"
| "nodeTypeTag ACTION_GOOGLE_SHEETS = ''ACTION_GOOGLE_SHEETS''"
| "nodeTypeTag ACTION_DATABASE = ''ACTION_DATABASE''"
| "nodeTypeTag ACTION_S3 = ''ACTION_S3''"
| "nodeTypeTag ACTION_AI_CHAT = ''ACTION_AI_CHAT''"
| "nodeTypeTag ACTION_AI_SUMMARIZE = ''ACTION_AI_SUMMARIZE''"
| "nodeTypeTag ACTION_AI_CLASSIFY = ''ACTION_AI_CLASSIFY''"
| "nodeTypeTag ACTION_AI_TRANSFORM = ''ACTION_AI_TRANSFORM''"
| "nodeTypeTag ACTION_FUNCTION = ''ACTION_FUNCTION''"
| "nodeTypeTag ACTION_ERROR_TRIGGER = ''ACTION_ERROR_TRIGGER''"
| "nodeTypeTag ACTION_SUBWORKFLOW = ''ACTION_SUBWORKFLOW''"

definition startsWith :: "string \<Rightarrow> string \<Rightarrow> bool" where
  "startsWith s p = (take (length p) s = p)"

definition findStartNodes :: "WorkflowDefinition \<Rightarrow> WorkflowNode list" where
  "findStartNodes w =
     (let nodesWithIncoming = set (map target (edges w))
      in filter (\<lambda>n. nodeId n \<notin> nodesWithIncoming
                     \<or> startsWith (nodeTypeTag (nodeType n)) ''TRIGGER_'') (nodes w))"

definition findEndNodes :: "WorkflowDefinition \<Rightarrow> WorkflowNode list" where
  "findEndNodes w =
     (let nodesWithOutgoing = set (map source (edges w))
      in filter (\<lambda>n. nodeId n \<notin> nodesWithOutgoing) (nodes w))"

definition getIncomingEdges :: "WorkflowDefinition \<Rightarrow> string \<Rightarrow> WorkflowEdge list" where
  "getIncomingEdges w nid = filter (\<lambda>e. target e = nid) (edges w)"

definition getOutgoingEdges :: "WorkflowDefinition \<Rightarrow> string \<Rightarrow> WorkflowEdge list" where
  "getOutgoingEdges w nid = filter (\<lambda>e. source e = nid) (edges w)"

text \<open>
  \<^verbatim>\<open>Object.assign(target, src)\<close> on the property list of the target: the own
  enumerable properties of the source, in order, are written over it. Those of an array
  are its elements under their indices; the caller never passes a source of another kind.
\<close>

fun showNat :: "nat \<Rightarrow> string" where
  "showNat n =
     (if n < 10 then [char_of (48 + n)] else showNat (n div 10) @ [char_of (48 + n mod 10)])"

fun ownProperties :: "jsval \<Rightarrow> (string \<times> jsval) list" where
  "ownProperties (JObj kvs) = kvs"
| "ownProperties (JArr xs) = zip (map showNat [0 ..< length xs]) xs"
| "ownProperties v = []"

definition objectAssign ::
  "(string \<times> jsval) list \<Rightarrow> (string \<times> jsval) list \<Rightarrow> (string \<times> jsval) list" where
  "objectAssign tgt props = foldl (\<lambda>acc (k, v). AList.update k v acc) tgt props"

text \<open>
  \<open>gatherNodeInput\<close>. In the second branch the list has exactly one element, so
  \<^const>\<open>hd\<close> is \<^verbatim>\<open>incomingEdges[0]\<close>.
\<close>

definition gatherNodeInput :: "WorkflowDefinition \<Rightarrow> ExecutionContext \<Rightarrow> string \<Rightarrow> jsval" where
  "gatherNodeInput w c nid =
     (let incomingEdges = getIncomingEdges w nid in
      if length incomingEdges = 0 then orElse (input c) (JObj [])
      else if length incomingEdges = 1 then
        orElse (mapGet (nodeOutputs c) (source (hd incomingEdges))) (JObj [])
      else
        JObj (foldl (\<lambda>mergedInput edge.
                       let output = mapGet (nodeOutputs c) (source edge) in
                       if truthy output \<and> typeofObject output
                       then objectAssign mergedInput (ownProperties output)
                       else mergedInput)
                [] incomingEdges))"

text \<open>
  The \<^verbatim>\<open>try\<close> block of \<open>executeNode\<close>: gather the input, look the handler up, call
  it and store its output. The result is what the block threw or the output, with the state
  as the block left it.
\<close>

definition tryDispatch ::
  "engine_env \<Rightarrow> WorkflowDefinition \<Rightarrow> WorkflowNode \<Rightarrow> engine_state
     \<Rightarrow> (error + jsval) \<times> engine_state" where
  "tryDispatch env w node st =
     (let inp = gatherNodeInput w (ctx st) (nodeId node) in
      case getHandler env (nodeType node) of
        None \<Rightarrow> (Inl (HandlerNotFound (nodeType node)), st)
      | Some handler \<Rightarrow>
          let st1 = st\<lparr>invoked := invoked st @ [nodeId node]\<rparr> in
          (case handler node inp (ctx st) of
             Inl msg \<Rightarrow> (Inl (HandlerError msg), st1)
           | Inr out \<Rightarrow> (Inr out, setNodeOutput (nodeId node) out st1)))"

text \<open>\<^verbatim>\<open>this.workflow.settings?.errorHandling !== 'continue'\<close>.\<close>

definition stopOnError :: "WorkflowDefinition \<Rightarrow> bool" where
  "stopOnError w =
     (case settings w of None \<Rightarrow> True | Some s \<Rightarrow> errorHandling s \<noteq> Some Continue)"

definition recordResult :: "WorkflowNode \<Rightarrow> NodeExecutionResult \<Rightarrow> engine_state \<Rightarrow> engine_state" where
  "recordResult node result st =
     st\<lparr>executedNodes := setAdd (nodeId node) (executedNodes st),
        nodeResults := AList.update (nodeId node) result (nodeResults st)\<rparr>"

text \<open>
  What a call returns: the error it threw, if any, and the state it left. The functions
  that recurse carry fuel, the depth of nested \<open>executeNode\<close> calls still allowed;
  \<open>None\<close> means that the fuel ran out.
\<close>

type_synonym outcome = "error option \<times> engine_state"

text \<open>The loop over the outgoing edges; \<open>exec\<close> is the recursive call.\<close>

fun followEdges ::
  "(WorkflowNode \<Rightarrow> engine_state \<Rightarrow> outcome option) \<Rightarrow> js_builtins \<Rightarrow> WorkflowDefinition
     \<Rightarrow> jsval \<Rightarrow> WorkflowEdge list \<Rightarrow> engine_state \<Rightarrow> outcome option" where
  "followEdges exec js w data [] st = Some (None, st)"
| "followEdges exec js w data (edge # rest) st =
     (case (case condition edge of
              None \<Rightarrow> Inr True
            | Some c \<Rightarrow> evaluateCondition js (Some c) data) of
        Inl err \<Rightarrow> Some (Some err, st)
      | Inr False \<Rightarrow> followEdges exec js w data rest st
      | Inr True \<Rightarrow>
          (case find (\<lambda>n. nodeId n = target edge) (nodes w) of
             None \<Rightarrow> followEdges exec js w data rest st
           | Some nextNode \<Rightarrow>
               (case exec nextNode st of
                  None \<Rightarrow> None
                | Some (Some err, st') \<Rightarrow> Some (Some err, st')
                | Some (None, st') \<Rightarrow> followEdges exec js w data rest st')))"

definition upstreamExecuted :: "WorkflowDefinition \<Rightarrow> engine_state \<Rightarrow> string \<Rightarrow> bool" where
  "upstreamExecuted w st nid =
     list_all (\<lambda>edge. source edge \<in> set (executedNodes st)) (getIncomingEdges w nid)"

primrec executeNode ::
  "nat \<Rightarrow> engine_env \<Rightarrow> WorkflowDefinition \<Rightarrow> WorkflowNode \<Rightarrow> engine_state \<Rightarrow> outcome option" where
  "executeNode 0 env w node st = None"
| "executeNode (Suc fuel) env w node st =
     (if nodeId node \<in> set (executedNodes st) then Some (None, st)
      else if \<not> upstreamExecuted w st (nodeId node) then Some (None, st)
      else
        (case tryDispatch env w node st of
           (Inl err, st1) \<Rightarrow>
             if stopOnError w then Some (Some err, st1)
             else
               followEdges (executeNode fuel env w) (builtins env) w JUndefined
                 (getOutgoingEdges w (nodeId node))
                 (recordResult node
                    \<lparr>resNodeId = nodeId node, resStatus = NodeError, resData = JUndefined,
                     resError = Some err\<rparr> st1)
         | (Inr out, st1) \<Rightarrow>
             followEdges (executeNode fuel env w) (builtins env) w out
               (getOutgoingEdges w (nodeId node))
               (recordResult node
                  \<lparr>resNodeId = nodeId node, resStatus = NodeSuccess, resData = out,
                   resError = None\<rparr> st1)))"

subsection \<open>The whole workflow\<close>

datatype ExecutionStatus = Success | Failed

record ExecutionResult =
  resExecutionId :: string
  status :: ExecutionStatus
  results :: "NodeExecutionResult list"
  execOutput :: jsval
  execError :: "error option"

text \<open>The constructor; the execution id is the UUID it draws.\<close>

definition newEngine ::
  "string \<Rightarrow> WorkflowDefinition \<Rightarrow> jsval \<Rightarrow> string option \<Rightarrow> ExecutionMode \<Rightarrow> engine_state" where
  "newEngine uuid w inp uid m =
     \<lparr>ctx = \<lparr>executionId = uuid, ctxWorkflowId = workflowId w, userId = uid, mode = m,
             input = inp, nodeOutputs = []\<rparr>,
      executedNodes = [], nodeResults = [], invoked = []\<rparr>"

text \<open>Seeding the start nodes' outputs with a truthy input.\<close>

definition seedStartNodes :: "WorkflowNode list \<Rightarrow> engine_state \<Rightarrow> engine_state" where
  "seedStartNodes startNodes st =
     (if truthy (input (ctx st))
      then foldl (\<lambda>s node. setNodeOutput (nodeId node) (input (ctx s)) s) st startNodes
      else st)"

fun executeStartNodes ::
  "(WorkflowNode \<Rightarrow> engine_state \<Rightarrow> outcome option) \<Rightarrow> WorkflowNode list \<Rightarrow> engine_state
     \<Rightarrow> outcome option" where
  "executeStartNodes exec [] st = Some (None, st)"
| "executeStartNodes exec (startNode # rest) st =
     (case exec startNode st of
        None \<Rightarrow> None
      | Some (Some err, st') \<Rightarrow> Some (Some err, st')
      | Some (None, st') \<Rightarrow> executeStartNodes exec rest st')"

text \<open>
  The traversal inside the \<^verbatim>\<open>try\<close> block of \<open>execute\<close>. The nesting of
  \<open>executeNode\<close> calls is bounded by the number of nodes, which is the fuel given.
\<close>

definition traverse :: "engine_env \<Rightarrow> WorkflowDefinition \<Rightarrow> engine_state \<Rightarrow> outcome option" where
  "traverse env w st =
     (let startNodes = findStartNodes w in
      if length startNodes = 0 then Some (Some NoStartNode, st)
      else executeStartNodes (executeNode (Suc (length (nodes w))) env w) startNodes
             (seedStartNodes startNodes st))"

definition execute :: "engine_env \<Rightarrow> WorkflowDefinition \<Rightarrow> engine_state \<Rightarrow> ExecutionResult option" where
  "execute env w st =
     (case traverse env w st of
        None \<Rightarrow> None
      | Some (Some err, st') \<Rightarrow>
          Some \<lparr>resExecutionId = executionId (ctx st'), status = Failed,
                results = map snd (nodeResults st'), execOutput = JUndefined,
                execError = Some err\<rparr>
      | Some (None, st') \<Rightarrow>
          let endNodes = findEndNodes w;
              finalOutput = (if length endNodes > 0
                             then mapGet (nodeOutputs (ctx st')) (nodeId (last endNodes))
                             else JUndefined)
          in Some \<lparr>resExecutionId = executionId (ctx st'), status = Success,
                   results = map snd (nodeResults st'), execOutput = finalOutput,
                   execError = None\<rparr>)"

definition executeWorkflow ::
  "engine_env \<Rightarrow> string \<Rightarrow> WorkflowDefinition \<Rightarrow> jsval \<Rightarrow> string option \<Rightarrow> ExecutionMode
     \<Rightarrow> ExecutionResult option" where
  "executeWorkflow env uuid w inp uid m = execute env w (newEngine uuid w inp uid m)"

section \<open>The job queue\<close>

text \<open>
  The queue service keeps an optional handle to a durable queue of the broker library and
  its own store of workflow definitions. The broker is outside the repository: the two
  calls the modelled methods make on it are parameters, over a type \<open>'q\<close> of broker
  states. \<open>queueAdd\<close> may reject (the broker is unreachable); \<open>queueGetJob\<close> finds a job.
\<close>

record JobPayload =
  payloadWorkflowId :: string
  payloadExecutionId :: string
  payloadInput :: jsval
  payloadUserId :: "string option"
  payloadMode :: ExecutionMode

record EnqueueOptions =
  optUserId :: "string option"
  optMode :: "ExecutionMode option"
  optPriority :: "nat option"
  optDelay :: "nat option"
  optJobId :: "string option"

record JobOptions =
  jobId :: string
  priority :: "nat option"
  delay :: "nat option"

record BrokerJob =
  jobState :: string
  jobProgress :: jsval
  returnvalue :: jsval
  failedReason :: "string option"

record JobStatus =
  state :: string
  progress :: jsval
  statusData :: jsval
  statusError :: "string option"

record 'q broker =
  queueAdd :: "'q \<Rightarrow> string \<Rightarrow> JobPayload \<Rightarrow> JobOptions \<Rightarrow> error + 'q"
  queueGetJob :: "'q \<Rightarrow> string \<Rightarrow> BrokerJob option"

text \<open>
  The process around the services: the UUIDs that \<^verbatim>\<open>uuid()\<close> returns, as the sequence
  of its results, and the engine's environment.
\<close>

record runtime =
  uuid :: "nat \<Rightarrow> string"
  engineEnv :: engine_env

text \<open>
  The service's state. \<open>uuidsDrawn\<close> counts the calls of \<^verbatim>\<open>uuid()\<close> so far. The
  field \<open>completed\<close> is not in the source: it logs the results of the engine runs that
  have finished, in order, so that "has run to completion" can be stated.
\<close>

record 'q JobQueueService =
  queue :: "'q option"
  workflowStore :: "(string \<times> WorkflowDefinition) list"
  isInitialized :: bool
  uuidsDrawn :: nat
  completed :: "ExecutionResult list"

definition registerWorkflow :: "WorkflowDefinition \<Rightarrow> 'q JobQueueService \<Rightarrow> 'q JobQueueService" where
  "registerWorkflow w svc =
     svc\<lparr>workflowStore := AList.update (workflowId w) w (workflowStore svc)\<rparr>"

text \<open>
  \<open>executeDirect\<close>: the engine runs inside the call, and the call returns its result.
  \<open>None\<close> is the engine out of fuel.
\<close>

definition executeDirect ::
  "runtime \<Rightarrow> 'q JobQueueService \<Rightarrow> JobPayload
     \<Rightarrow> ((error + ExecutionResult) \<times> 'q JobQueueService) option" where
  "executeDirect rt svc payload =
     (case map_of (workflowStore svc) (payloadWorkflowId payload) of
        None \<Rightarrow> Some (Inl (WorkflowNotFound (payloadWorkflowId payload)), svc)
      | Some workflow \<Rightarrow>
          (case executeWorkflow (engineEnv rt) (uuid rt (uuidsDrawn svc)) workflow
                  (payloadInput payload) (payloadUserId payload) (payloadMode payload) of
             None \<Rightarrow> None
           | Some res \<Rightarrow>
               Some (Inr res, svc\<lparr>uuidsDrawn := Suc (uuidsDrawn svc),
                                  completed := completed svc @ [res]\<rparr>)))"

text \<open>
  \<open>enqueue\<close>. \<^verbatim>\<open>options?.jobId || `job_${uuid()}`\<close> draws a UUID only when no
  non-empty job id is given. The call returns the execution id or throws.
\<close>

definition enqueue ::
  "runtime \<Rightarrow> 'q broker \<Rightarrow> 'q JobQueueService \<Rightarrow> string \<Rightarrow> jsval \<Rightarrow> EnqueueOptions
     \<Rightarrow> ((error + string) \<times> 'q JobQueueService) option" where
  "enqueue rt br svc wid inp options =
     (let given = (case optJobId options of None \<Rightarrow> False | Some j \<Rightarrow> j \<noteq> []);
          jid = (if given then the (optJobId options)
                 else ''job_'' @ uuid rt (uuidsDrawn svc));
          n1 = (if given then uuidsDrawn svc else Suc (uuidsDrawn svc));
          executionId = ''exec_'' @ uuid rt n1;
          svc1 = svc\<lparr>uuidsDrawn := Suc n1\<rparr>;
          payload = \<lparr>payloadWorkflowId = wid, payloadExecutionId = executionId,
                     payloadInput = inp, payloadUserId = optUserId options,
                     payloadMode = (case optMode options of None \<Rightarrow> Manual | Some m \<Rightarrow> m)\<rparr>
      in case queue svc1 of
           Some q \<Rightarrow>
             (case queueAdd br q wid payload
                     \<lparr>jobId = jid, priority = optPriority options, delay = optDelay options\<rparr> of
                Inl err \<Rightarrow> Some (Inl err, svc1)
              | Inr q' \<Rightarrow> Some (Inr executionId, svc1\<lparr>queue := Some q'\<rparr>))
         | None \<Rightarrow>
             (case executeDirect rt svc1 payload of
                None \<Rightarrow> None
              | Some (Inl err, svc2) \<Rightarrow> Some (Inl err, svc2)
              | Some (Inr res, svc2) \<Rightarrow> Some (Inr executionId, svc2)))"

text \<open>\<open>getJobStatus\<close>: \<^verbatim>\<open>null\<close> without a queue and for an unknown job.\<close>

definition getJobStatus :: "'q broker \<Rightarrow> 'q JobQueueService \<Rightarrow> string \<Rightarrow> JobStatus option" where
  "getJobStatus br svc jid =
     (case queue svc of
        None \<Rightarrow> None
      | Some q \<Rightarrow>
          (case queueGetJob br q jid of
             None \<Rightarrow> None
           | Some job \<Rightarrow>
               Some \<lparr>state = jobState job,
                     progress = orElse (jobProgress job) (JNum (Fin 0)),
                     statusData = returnvalue job,
                     statusError = failedReason job\<rparr>))"

section \<open>The scheduler\<close>

text \<open>
  A scheduled job. \<open>task\<close> stands for the timer handle of the cron library: all that is
  kept of it is whether it is running. Times are milliseconds.
\<close>

record ScheduledJob =
  schedId :: string
  schedWorkflowId :: string
  cronExpression :: string
  timezone :: string
  isActive :: bool
  lastRunAt :: "int option"
  nextRunAt :: "int option"
  task :: bool

record SchedulerService =
  jobs :: "(string \<times> ScheduledJob) list"
  schedWorkflowStore :: "(string \<times> WorkflowDefinition) list"
  schedUuidsDrawn :: nat

definition getNextRunTime :: "int \<Rightarrow> string \<Rightarrow> int" where
  "getNextRunTime now cronExpr = now + 60000"

text \<open>
  \<open>validateCron\<close> and \<open>schedule\<close> ask the cron library whether an expression is valid;
  its validator is the parameter \<open>cronValidate\<close>. \<open>now\<close> is the clock at the call;
  an absent time zone defaults to UTC. The library's timer is taken to start when asked.
\<close>

definition validateCron :: "(string \<Rightarrow> bool) \<Rightarrow> string \<Rightarrow> bool" where
  "validateCron cronValidate expression = cronValidate expression"

definition schedule ::
  "(string \<Rightarrow> bool) \<Rightarrow> (nat \<Rightarrow> string) \<Rightarrow> int \<Rightarrow> SchedulerService \<Rightarrow> string \<Rightarrow> string
     \<Rightarrow> string option \<Rightarrow> (error + string) \<times> SchedulerService" where
  "schedule cronValidate uuids now svc wid cronExpr tz =
     (if \<not> cronValidate cronExpr then (Inl (InvalidCronExpression cronExpr), svc)
      else
        let jid = ''schedule_'' @ uuids (schedUuidsDrawn svc);
            job = \<lparr>schedId = jid, schedWorkflowId = wid, cronExpression = cronExpr,
                   timezone = (case tz of None \<Rightarrow> ''UTC'' | Some z \<Rightarrow> z),
                   isActive = True, lastRunAt = None,
                   nextRunAt = Some (getNextRunTime now cronExpr), task = True\<rparr>
        in (Inr jid, svc\<lparr>jobs := AList.update jid job (jobs svc),
                          schedUuidsDrawn := Suc (schedUuidsDrawn svc)\<rparr>))"

subsection \<open>A five-field validator\<close>

text \<open>
  The validator \<^verbatim>\<open>cron.validate\<close> belongs to the cron library and is not in the
  repository. The spec asks for the "standard five-field
  \<^verbatim>\<open>minute hour day-of-month month day-of-week\<close> syntax" and that anything else be
  rejected. The definitions of this subsection model that syntax.
\<close>

text \<open>Modelled from the spec: a number of a cron field is a decimal numeral.\<close>

definition parseNat :: "string \<Rightarrow> nat option" where
  "parseNat s =
     (if s = [] \<or> \<not> list_all isDigit s then None
      else Some (foldl (\<lambda>n c. 10 * n + (of_char c - 48)) 0 s))"

text \<open>Modelled from the spec: a number within the bounds of its field.\<close>

definition cronNumber :: "nat \<Rightarrow> nat \<Rightarrow> string \<Rightarrow> nat option" where
  "cronNumber lo hi s =
     (case parseNat s of
        None \<Rightarrow> None
      | Some n \<Rightarrow> if lo \<le> n \<and> n \<le> hi then Some n else None)"

text \<open>Modelled from the spec: \<^verbatim>\<open>*\<close>, a number, or a range \<^verbatim>\<open>a-b\<close> with
  \<open>a \<le> b\<close>.\<close>

definition cronRange :: "nat \<Rightarrow> nat \<Rightarrow> string \<Rightarrow> bool" where
  "cronRange lo hi r =
     (r = ''*'' \<or>
      (case split CHR ''-'' r of
         [a] \<Rightarrow> cronNumber lo hi a \<noteq> None
       | [a, b] \<Rightarrow>
           (case (cronNumber lo hi a, cronNumber lo hi b) of
              (Some x, Some y) \<Rightarrow> x \<le> y
            | _ \<Rightarrow> False)
       | _ \<Rightarrow> False))"

text \<open>Modelled from the spec: an item is a range, optionally followed by
  \<^verbatim>\<open>/step\<close> with a positive step.\<close>

definition cronItem :: "nat \<Rightarrow> nat \<Rightarrow> string \<Rightarrow> bool" where
  "cronItem lo hi s =
     (case split CHR ''/'' s of
        [r] \<Rightarrow> cronRange lo hi r
      | [r, step] \<Rightarrow>
          cronRange lo hi r \<and> (case parseNat step of None \<Rightarrow> False | Some k \<Rightarrow> 0 < k)
      | _ \<Rightarrow> False)"

text \<open>Modelled from the spec: a field is a comma-separated list of items.\<close>

definition cronField :: "nat \<Rightarrow> nat \<Rightarrow> string \<Rightarrow> bool" where
  "cronField lo hi f = list_all (cronItem lo hi) (split CHR '','' f)"

text \<open>Modelled from the spec: the validator \<^verbatim>\<open>cron.validate\<close> of the cron library,
  which is not in the repository, as the "standard five-field
  \<^verbatim>\<open>minute hour day-of-month month day-of-week\<close> syntax": exactly five fields separated
  by single spaces, with the bounds 0-59, 0-23, 1-31, 1-12 and 0-7.\<close>

definition fiveFieldCron :: "string \<Rightarrow> bool" where
  "fiveFieldCron e =
     (case split CHR '' '' e of
        [minute, hour, dayOfMonth, month, dayOfWeek] \<Rightarrow>
          cronField 0 59 minute \<and> cronField 0 23 hour \<and> cronField 1 31 dayOfMonth
          \<and> cronField 1 12 month \<and> cronField 0 7 dayOfWeek
      | _ \<Rightarrow> False)"

section \<open>Invariants of a run\<close>

text \<open>
  No node id twice in \<open>executedNodes\<close>, no key twice in \<open>nodeOutputs\<close> and in
  \<open>nodeResults\<close>, no handler called twice.
\<close>

definition atMostOnce :: "engine_state \<Rightarrow> bool" where
  "atMostOnce st \<longleftrightarrow>
     distinct (executedNodes st) \<and> distinct (map fst (nodeOutputs (ctx st)))
     \<and> distinct (map fst (nodeResults st)) \<and> distinct (invoked st)"

text \<open>Between two calls every node whose handler was called is marked as executed.\<close>

definition invokedExecuted :: "engine_state \<Rightarrow> bool" where
  "invokedExecuted st \<longleftrightarrow> set (invoked st) \<subseteq> set (executedNodes st)"

text \<open>Every node whose handler was called has all its upstream nodes executed.\<close>

definition invokedAfterUpstream :: "WorkflowDefinition \<Rightarrow> engine_state \<Rightarrow> bool" where
  "invokedAfterUpstream w st \<longleftrightarrow> list_all (upstreamExecuted w st) (invoked st)"

text \<open>The number of node ids of the workflow not yet executed: it bounds the nesting.\<close>

definition unexecuted :: "WorkflowDefinition \<Rightarrow> engine_state \<Rightarrow> nat" where
  "unexecuted w st = card (nodeId ` set (nodes w) - set (executedNodes st))"

text \<open>No recorded result is that of a failed node.\<close>

definition successesOnly :: "engine_state \<Rightarrow> bool" where
  "successesOnly st \<longleftrightarrow> list_all (\<lambda>(k, r). resStatus r = NodeSuccess) (nodeResults st)"

text \<open>
  What holds between two calls of a run that still has \<open>f\<close> levels of nesting left, and
  what a call that returns \<open>r\<close> establishes.
\<close>

definition runReady :: "nat \<Rightarrow> WorkflowDefinition \<Rightarrow> engine_state \<Rightarrow> bool" where
  "runReady f w st \<longleftrightarrow>
     atMostOnce st \<and> invokedExecuted st \<and> invokedAfterUpstream w st \<and> unexecuted w st < f"

definition runStep ::
  "WorkflowDefinition \<Rightarrow> engine_state \<Rightarrow> error option \<Rightarrow> engine_state \<Rightarrow> bool" where
  "runStep w st r st' \<longleftrightarrow>
     atMostOnce st' \<and> invokedAfterUpstream w st'
     \<and> set (executedNodes st) \<subseteq> set (executedNodes st')
     \<and> set (invoked st) \<subseteq> set (invoked st')
     \<and> (r = None \<longrightarrow> invokedExecuted st')"

section \<open>The merge of source outputs, as the spec words it\<close>


definition objectOutputs :: "WorkflowDefinition \<Rightarrow> ExecutionContext \<Rightarrow> string \<Rightarrow> jsval list" where
  "objectOutputs w c nid =
     filter (\<lambda>out. truthy out \<and> typeofObject out)
       (map (\<lambda>edge. mapGet (nodeOutputs c) (source edge)) (getIncomingEdges w nid))"

section \<open>Example data\<close>

text \<open>
  Stand-ins for the built-ins, with which the examples are evaluated: numbers print and
  parse as the naturals they are, a pattern of letters and digits matches literally, and
  every other pattern is rejected (the examples use only \<^verbatim>\<open>(\<close>, which the language
  rejects as well); two objects are never the same one.
\<close>

definition isAlnum :: "char \<Rightarrow> bool" where
  "isAlnum c =
     (let n = (of_char c :: nat)
      in (48 \<le> n \<and> n \<le> 57) \<or> (65 \<le> n \<and> n \<le> 90) \<or> (97 \<le> n \<and> n \<le> 122))"

definition exampleBuiltins :: js_builtins where
  "exampleBuiltins =
     \<lparr>numberToString = (\<lambda>q. showNat (nat \<lfloor>q\<rfloor>)),
      stringToNumber = (\<lambda>s. case parseNat s of None \<Rightarrow> NaN | Some n \<Rightarrow> Fin (of_nat n)),
      regExpTest = (\<lambda>p s. if list_all isAlnum p then Some (stringIncludes s p) else None),
      sameObject = (\<lambda>a b. False)\<rparr>"

definition passThrough :: NodeHandler where
  "passThrough node inp c = Inr inp"

definition failingHandler :: NodeHandler where
  "failingHandler node inp c = Inl ''boom''"

text \<open>Code nodes fail, email nodes have no handler, every other node passes its input on.\<close>

definition exampleEnv :: engine_env where
  "exampleEnv =
     \<lparr>getHandler = (\<lambda>t. if t = ACTION_CODE then Some failingHandler
                          else if t = ACTION_EMAIL then None
                          else Some passThrough),
      builtins = exampleBuiltins\<rparr>"

definition mkNode :: "string \<Rightarrow> NodeType \<Rightarrow> WorkflowNode" where
  "mkNode i t = \<lparr>nodeId = i, nodeType = t, nodeName = i, config = JObj [], credentialId = None\<rparr>"

definition mkEdge :: "string \<Rightarrow> string \<Rightarrow> EdgeCondition option \<Rightarrow> WorkflowEdge" where
  "mkEdge a b c = \<lparr>edgeId = a @ ''-'' @ b, source = a, target = b, condition = c\<rparr>"

text \<open>The chain A \<open>\<rightarrow>\<close> B \<open>\<rightarrow>\<close> C with a middle node of the given type.\<close>

definition exampleChain :: "NodeType \<Rightarrow> ErrorHandling option \<Rightarrow> WorkflowDefinition" where
  "exampleChain t eh =
     \<lparr>workflowId = ''wf1'', workflowName = ''chain'',
      nodes = [mkNode ''A'' TRIGGER_MANUAL, mkNode ''B'' t, mkNode ''C'' ACTION_SET],
      edges = [mkEdge ''A'' ''B'' None, mkEdge ''B'' ''C'' None],
      settings = Some \<lparr>errorHandling = eh, maxRetries = None, timeout = None\<rparr>\<rparr>"

text \<open>Two sources S1 and S2 feeding M, and a node N fed by S1 alone.\<close>

definition exampleMerge :: WorkflowDefinition where
  "exampleMerge =
     \<lparr>workflowId = ''wf2'', workflowName = ''merge'',
      nodes = [mkNode ''S1'' TRIGGER_MANUAL, mkNode ''S2'' TRIGGER_MANUAL,
               mkNode ''M'' ACTION_MERGE, mkNode ''N'' ACTION_SET],
      edges = [mkEdge ''S1'' ''M'' None, mkEdge ''S2'' ''M'' None, mkEdge ''S1'' ''N'' None],
      settings = None\<rparr>"

definition exampleContext :: "jsval \<Rightarrow> (string \<times> jsval) list \<Rightarrow> ExecutionContext" where
  "exampleContext inp outs =
     \<lparr>executionId = ''e1'', ctxWorkflowId = ''wf2'', userId = None, mode = Manual,
      input = inp, nodeOutputs = outs\<rparr>"




text \<open>A single action node with an edge to itself, and a webhook trigger T in a cycle
  with an action X.\<close>

definition exampleSelfLoop :: WorkflowDefinition where
  "exampleSelfLoop =
     \<lparr>workflowId = ''wf4'', workflowName = ''self loop'',
      nodes = [mkNode ''X'' ACTION_SET],
      edges = [mkEdge ''X'' ''X'' None],
      settings = None\<rparr>"

text \<open>A manual trigger S with an edge to a node T of the front end's type
  \<^verbatim>\<open>TRIGGER\<close>.\<close>

definition exampleBareTrigger :: WorkflowDefinition where
  "exampleBareTrigger =
     \<lparr>workflowId = ''wf6'', workflowName = ''bare trigger'',
      nodes = [mkNode ''S'' TRIGGER_MANUAL, mkNode ''T'' TRIGGER],
      edges = [mkEdge ''S'' ''T'' None],
      settings = None\<rparr>"

definition exampleTriggerCycle :: WorkflowDefinition where
  "exampleTriggerCycle =
     \<lparr>workflowId = ''wf5'', workflowName = ''trigger cycle'',
      nodes = [mkNode ''T'' TRIGGER_WEBHOOK, mkNode ''X'' ACTION_SET],
      edges = [mkEdge ''X'' ''T'' None, mkEdge ''T'' ''X'' None],
      settings = None\<rparr>"

text \<open>An environment in which every node returns its own id.\<close>

definition tagHandler :: NodeHandler where
  "tagHandler node inp c = Inr (JStr (nodeId node))"

definition exampleTagEnv :: engine_env where
  "exampleTagEnv = \<lparr>getHandler = (\<lambda>t. Some tagHandler), builtins = exampleBuiltins\<rparr>"

text \<open>
  A process whose n-th UUID is the numeral of n, a broker that accepts every job and knows
  none, a queue service in direct mode with the chain registered, the same service with a
  queue, and a scheduler without jobs.
\<close>

definition exampleRuntime :: runtime where
  "exampleRuntime = \<lparr>uuid = showNat, engineEnv = exampleEnv\<rparr>"

definition exampleBroker :: "unit broker" where
  "exampleBroker = \<lparr>queueAdd = (\<lambda>q name payload opts. Inr q), queueGetJob = (\<lambda>q jid. None)\<rparr>"

definition exampleDirectService :: "unit JobQueueService" where
  "exampleDirectService =
     \<lparr>queue = None, workflowStore = [(''wf1'', exampleChain ACTION_SET None)],
      isInitialized = False, uuidsDrawn = 0, completed = []\<rparr>"

definition exampleDurableService :: "unit JobQueueService" where
  "exampleDurableService = exampleDirectService\<lparr>queue := Some (), isInitialized := True\<rparr>"

definition noOptions :: EnqueueOptions where
  "noOptions = \<lparr>optUserId = None, optMode = None, optPriority = None, optDelay = None,
                optJobId = None\<rparr>"

definition exampleScheduler :: SchedulerService where
  "exampleScheduler = \<lparr>jobs = [], schedWorkflowStore = [], schedUuidsDrawn = 0\<rparr>"

section \<open>Paths and conditions\<close>






























section \<open>Input gathering\<close>


lemma foldl_filter_map:
  "foldl (\<lambda>acc e. let out = g e in if P out then h acc out else acc) t es
     = foldl h t (filter P (map g es))"
  by (induction es arbitrary: t) (simp_all add: Let_def)

lemma gather_multi:
  assumes "2 \<le> length (getIncomingEdges w nid)"
  shows "gatherNodeInput w c nid =
     JObj (foldl (\<lambda>acc out. objectAssign acc (ownProperties out)) [] (objectOutputs w c nid))"
proof -
  have "length (getIncomingEdges w nid) \<noteq> 0" "length (getIncomingEdges w nid) \<noteq> 1"
    using assms by auto
  then show ?thesis
    unfolding gatherNodeInput_def objectOutputs_def Let_def
    using foldl_filter_map [of "\<lambda>edge. mapGet (nodeOutputs c) (source edge)"
        "\<lambda>out. truthy out \<and> typeofObject out" "\<lambda>acc out. objectAssign acc (ownProperties out)" "[]"
        "getIncomingEdges w nid"]
    by (simp add: Let_def)
qed



lemma gather_one:
  "getIncomingEdges w nid = [edge] \<Longrightarrow> gatherNodeInput w c nid =
     (if truthy (mapGet (nodeOutputs c) (source edge)) then mapGet (nodeOutputs c) (source edge) else JObj [])"
  by (simp add: gatherNodeInput_def orElse_def)


lemma truthy_object_iff:
  "truthy out \<and> typeofObject out \<longleftrightarrow> (\<exists>xs. out = JArr xs) \<or> (\<exists>kvs. out = JObj kvs)"
  by (cases out) auto




text \<open>
  Claim C10. With two or more incoming edges the merged input is built from the source
  outputs that are truthy values of type object, which are the objects and the arrays: a
  string, a number, a boolean, null and the undefined of a source without a recorded output
  are passed over and contribute no key. With exactly one incoming edge, a source without a
  recorded output gives the empty object.
\<close>

theorem gatherNodeInput_skips_non_objects:
  "(2 \<le> length (getIncomingEdges w nid) \<longrightarrow>
      gatherNodeInput w c nid =
        JObj (foldl (\<lambda>acc out. objectAssign acc (ownProperties out)) []
                (filter (\<lambda>out. (\<exists>xs. out = JArr xs) \<or> (\<exists>kvs. out = JObj kvs))
                   (map (\<lambda>edge. mapGet (nodeOutputs c) (source edge))
                      (getIncomingEdges w nid)))))
   \<and> (map_of (nodeOutputs c) (source edge) = None \<longrightarrow>
        mapGet (nodeOutputs c) (source edge) = JUndefined)
   \<and> (getIncomingEdges w nid = [edge] \<and> map_of (nodeOutputs c) (source edge) = None \<longrightarrow>
        gatherNodeInput w c nid = JObj [])"
proof -
  have "objectOutputs w c nid =
      filter (\<lambda>out. (\<exists>xs. out = JArr xs) \<or> (\<exists>kvs. out = JObj kvs))
        (map (\<lambda>edge. mapGet (nodeOutputs c) (source edge)) (getIncomingEdges w nid))"
    unfolding objectOutputs_def truthy_object_iff ..
  then show ?thesis
    using gather_multi [of w nid c] gather_one [of w nid edge c]
    by (auto simp: mapGet_def)
qed

theorem gatherNodeInput_skips_non_objects_witness:
  "gatherNodeInput exampleMerge
      (exampleContext JUndefined [(''S1'', JStr ''text''), (''S2'', JObj [(''b'', JNum (Fin 2))])]) ''M''
     = JObj [(''b'', JNum (Fin 2))]
   \<and> gatherNodeInput exampleMerge (exampleContext JUndefined [(''S1'', JNull)]) ''M'' = JObj []
   \<and> gatherNodeInput exampleMerge (exampleContext JUndefined []) ''N'' = JObj []"
proof -
  have h2: "2 \<le> length (getIncomingEdges exampleMerge ''M'')" by code_simp
  have in2: "getIncomingEdges exampleMerge ''M'' = [mkEdge ''S1'' ''M'' None, mkEdge ''S2'' ''M'' None]"
    by code_simp
  have h1: "getIncomingEdges exampleMerge ''N'' = [mkEdge ''S1'' ''N'' None]
      \<and> map_of (nodeOutputs (exampleContext JUndefined [])) (source (mkEdge ''S1'' ''N'' None)) = None"
    by code_simp
  have a: "gatherNodeInput exampleMerge
      (exampleContext JUndefined [(''S1'', JStr ''text''), (''S2'', JObj [(''b'', JNum (Fin 2))])]) ''M''
     = JObj [(''b'', JNum (Fin 2))]"
    using gatherNodeInput_skips_non_objects [where w = exampleMerge and nid = "''M''"
        and c = "exampleContext JUndefined [(''S1'', JStr ''text''), (''S2'', JObj [(''b'', JNum (Fin 2))])]"] h2
    by (simp add: in2 exampleContext_def mkEdge_def mapGet_def objectAssign_def)
  have b: "gatherNodeInput exampleMerge (exampleContext JUndefined [(''S1'', JNull)]) ''M'' = JObj []"
    using gatherNodeInput_skips_non_objects [where w = exampleMerge and nid = "''M''"
        and c = "exampleContext JUndefined [(''S1'', JNull)]"] h2
    by (simp add: in2 exampleContext_def mkEdge_def mapGet_def objectAssign_def)
  have c: "gatherNodeInput exampleMerge (exampleContext JUndefined []) ''N'' = JObj []"
    using gatherNodeInput_skips_non_objects [where w = exampleMerge and nid = "''N''"
        and c = "exampleContext JUndefined []" and edge = "mkEdge ''S1'' ''N'' None"] h1
    by blast
  show ?thesis using a b c by simp
qed

section \<open>Start nodes\<close>

lemma trigger_types:
  "startsWith (nodeTypeTag t) ''TRIGGER_'' \<longleftrightarrow>
     t \<in> {TRIGGER_WEBHOOK, TRIGGER_SCHEDULE, TRIGGER_FORM, TRIGGER_EVENT, TRIGGER_MANUAL}"
  by (cases t) (simp_all add: startsWith_def)

lemma findStartNodes_filter:
  "findStartNodes w = filter (\<lambda>n. (\<forall>e \<in> set (edges w). target e \<noteq> nodeId n)
       \<or> nodeType n \<in> {TRIGGER_WEBHOOK, TRIGGER_SCHEDULE, TRIGGER_FORM, TRIGGER_EVENT, TRIGGER_MANUAL}) (nodes w)"
  unfolding findStartNodes_def Let_def trigger_types
  by (rule filter_cong) (auto simp: image_iff)

lemma execute_no_start:
  "findStartNodes w = [] \<Longrightarrow> execute env w (newEngine u w inp uid m) =
     Some \<lparr>resExecutionId = u, status = Failed, results = [], execOutput = JUndefined, execError = Some NoStartNode\<rparr>"
  by (simp add: execute_def traverse_def newEngine_def)

text \<open>
  Claim C4, as stated: every node whose type tag identifies it as a trigger is a start node,
  with incoming edges or not. The node T of the workflow below has the tag
  \<^verbatim>\<open>TRIGGER\<close>, the trigger type of the front end, and is the target of an edge: it
  is not among the start nodes, which are S alone.
\<close>

theorem findStartNodes_bare_trigger_counterexample:
  "nodeTypeTag (nodeType (mkNode ''T'' TRIGGER)) = ''TRIGGER''
   \<and> mkNode ''T'' TRIGGER \<in> set (nodes exampleBareTrigger)
   \<and> mkNode ''T'' TRIGGER \<notin> set (findStartNodes exampleBareTrigger)
   \<and> findStartNodes exampleBareTrigger = [mkNode ''S'' TRIGGER_MANUAL]"
  by code_simp

text \<open>
  Claim C4, amended. The start nodes are, in declaration order, exactly the nodes that no
  edge targets together with the nodes whose type tag begins with \<^verbatim>\<open>TRIGGER_\<close>,
  whether an edge targets them or not. Over the enumeration of node types these are the
  webhook, schedule, form, event and manual triggers; a node of the bare type
  \<^verbatim>\<open>TRIGGER\<close> is a start node only if no edge targets it. The traversal starts from
  these nodes; when there is none, \<open>execute\<close> fails with \<open>NoStartNode\<close> and status
  \<open>failed\<close>, having recorded nothing.
\<close>

theorem findStartNodes_selects:
  "findStartNodes w =
     filter (\<lambda>n. (\<forall>e \<in> set (edges w). target e \<noteq> nodeId n)
                  \<or> nodeType n \<in> {TRIGGER_WEBHOOK, TRIGGER_SCHEDULE, TRIGGER_FORM,
                                    TRIGGER_EVENT, TRIGGER_MANUAL}) (nodes w)
   \<and> (findStartNodes w = [] \<longrightarrow>
        execute env w (newEngine u w inp uid m) =
          Some \<lparr>resExecutionId = u, status = Failed, results = [], execOutput = JUndefined,
                execError = Some NoStartNode\<rparr>)
   \<and> (findStartNodes w \<noteq> [] \<longrightarrow>
        traverse env w st =
          executeStartNodes (executeNode (Suc (length (nodes w))) env w) (findStartNodes w)
            (seedStartNodes (findStartNodes w) st))"
proof -
  have "findStartNodes w \<noteq> [] \<longrightarrow>
        traverse env w st =
          executeStartNodes (executeNode (Suc (length (nodes w))) env w) (findStartNodes w)
            (seedStartNodes (findStartNodes w) st)"
    by (simp add: traverse_def Let_def)
  then show ?thesis
    using findStartNodes_filter [of w] execute_no_start [of w env u inp uid m]
    by blast
qed

theorem findStartNodes_selects_witness:
  "findStartNodes exampleTriggerCycle = [mkNode ''T'' TRIGGER_WEBHOOK]
   \<and> execute exampleEnv exampleSelfLoop (newEngine ''e1'' exampleSelfLoop JUndefined None Manual) =
        Some \<lparr>resExecutionId = ''e1'', status = Failed, results = [], execOutput = JUndefined,
              execError = Some NoStartNode\<rparr>"
proof -
  have h: "findStartNodes exampleSelfLoop = []" by code_simp
  have a: "findStartNodes exampleTriggerCycle = [mkNode ''T'' TRIGGER_WEBHOOK]"
    using findStartNodes_selects [where w = exampleTriggerCycle]
    by (simp add: exampleTriggerCycle_def mkNode_def mkEdge_def)
  have b: "execute exampleEnv exampleSelfLoop (newEngine ''e1'' exampleSelfLoop JUndefined None Manual) =
        Some \<lparr>resExecutionId = ''e1'', status = Failed, results = [], execOutput = JUndefined,
              execError = Some NoStartNode\<rparr>"
    using findStartNodes_selects [where w = exampleSelfLoop] h by blast
  show ?thesis using a b by simp
qed

section \<open>Runs\<close>

lemma upstreamExecuted_mono:
  "upstreamExecuted w st n \<Longrightarrow> set (executedNodes st) \<subseteq> set (executedNodes st')
     \<Longrightarrow> upstreamExecuted w st' n"
  by (auto simp: upstreamExecuted_def list_all_iff)

lemma invokedAfterUpstream_mono:
  "invokedAfterUpstream w st \<Longrightarrow> invoked st' = invoked st
     \<Longrightarrow> set (executedNodes st) \<subseteq> set (executedNodes st') \<Longrightarrow> invokedAfterUpstream w st'"
  unfolding invokedAfterUpstream_def list_all_iff
  by (metis upstreamExecuted_mono)

lemma unexecuted_mono:
  "set (executedNodes st) \<subseteq> set (executedNodes st') \<Longrightarrow> unexecuted w st' \<le> unexecuted w st"
  unfolding unexecuted_def by (rule card_mono) auto

lemma unexecuted_less:
  assumes "node \<in> set (nodes w)" "nodeId node \<notin> set (executedNodes st)"
    and "set (executedNodes st') = insert (nodeId node) (set (executedNodes st))"
  shows "unexecuted w st' < unexecuted w st"
  unfolding unexecuted_def
proof (rule psubset_card_mono)
  show "finite (nodeId ` set (nodes w) - set (executedNodes st))" by simp
  show "nodeId ` set (nodes w) - set (executedNodes st') \<subset> nodeId ` set (nodes w) - set (executedNodes st)"
    using assms by auto
qed

lemma runReady_runStep: "runReady f w st \<Longrightarrow> runStep w st None st"
  by (simp add: runReady_def runStep_def)

lemma runStep_runReady: "runReady f w st \<Longrightarrow> runStep w st None st' \<Longrightarrow> runReady f w st'"
  unfolding runReady_def runStep_def
  using unexecuted_mono [of st st' w] by auto

lemma runStep_trans: "runStep w st None st' \<Longrightarrow> runStep w st' r st'' \<Longrightarrow> runStep w st r st''"
  unfolding runStep_def by auto

lemma tryDispatch_state:
  assumes "tryDispatch env w node st = (r, st1)"
  shows "executedNodes st1 = executedNodes st \<and> nodeResults st1 = nodeResults st
    \<and> (invoked st1 = invoked st \<or> invoked st1 = invoked st @ [nodeId node])
    \<and> (nodeOutputs (ctx st1) = nodeOutputs (ctx st)
        \<or> (\<exists>v. nodeOutputs (ctx st1) = AList.update (nodeId node) v (nodeOutputs (ctx st))))
    \<and> (getHandler env (nodeType node) \<noteq> None \<longrightarrow> invoked st1 = invoked st @ [nodeId node])"
  using assms
  by (auto simp: tryDispatch_def Let_def setNodeOutput_def split: option.splits sum.splits)

lemma tryDispatch_inv:
  assumes d: "tryDispatch env w node st = (r, st1)"
    and inv: "atMostOnce st" "invokedExecuted st" "invokedAfterUpstream w st"
    and fresh: "nodeId node \<notin> set (executedNodes st)"
    and up: "upstreamExecuted w st (nodeId node)"
  shows "atMostOnce st1 \<and> invokedAfterUpstream w st1
    \<and> set (invoked st1) \<subseteq> insert (nodeId node) (set (executedNodes st))
    \<and> executedNodes st1 = executedNodes st
    \<and> set (invoked st) \<subseteq> set (invoked st1)
    \<and> (getHandler env (nodeType node) \<noteq> None \<longrightarrow> nodeId node \<in> set (invoked st1))"
proof -
  note s = tryDispatch_state [OF d]
  from s have ex: "executedNodes st1 = executedNodes st" by simp
  have up1: "upstreamExecuted w st1 (nodeId node)"
    using up ex by (simp add: upstreamExecuted_def)
  have "distinct (invoked st1)"
    using s inv fresh by (auto simp: atMostOnce_def invokedExecuted_def)
  moreover have "distinct (map fst (nodeOutputs (ctx st1)))"
    using s inv by (auto simp: atMostOnce_def distinct_update)
  ultimately have a: "atMostOnce st1" using s inv by (simp add: atMostOnce_def)
  have b: "invokedAfterUpstream w st1"
    using s inv(3) up1 ex
    by (auto simp: invokedAfterUpstream_def list_all_iff upstreamExecuted_def)
  have c: "set (invoked st1) \<subseteq> insert (nodeId node) (set (executedNodes st))"
    using s inv(2) by (auto simp: invokedExecuted_def)
  have d: "set (invoked st) \<subseteq> set (invoked st1)"
    using s by auto
  have e: "getHandler env (nodeType node) \<noteq> None \<longrightarrow> nodeId node \<in> set (invoked st1)"
    using s by auto
  show ?thesis using a b c d e ex by simp
qed

lemma recordResult_inv:
  assumes "atMostOnce st1" "invokedAfterUpstream w st1"
    and "set (invoked st1) \<subseteq> insert (nodeId node) (set (executedNodes st1))"
    and "nodeId node \<notin> set (executedNodes st1)"
  shows "atMostOnce (recordResult node res st1) \<and> invokedExecuted (recordResult node res st1)
    \<and> invokedAfterUpstream w (recordResult node res st1)
    \<and> set (executedNodes (recordResult node res st1)) = insert (nodeId node) (set (executedNodes st1))
    \<and> invoked (recordResult node res st1) = invoked st1"
proof -
  let ?st2 = "recordResult node res st1"
  have ex: "executedNodes ?st2 = executedNodes st1 @ [nodeId node]"
    using assms(4) by (simp add: recordResult_def setAdd_def)
  have o: "invoked ?st2 = invoked st1" "ctx ?st2 = ctx st1"
    "nodeResults ?st2 = AList.update (nodeId node) res (nodeResults st1)"
    by (simp_all add: recordResult_def)
  have a: "atMostOnce ?st2"
    using assms(1,4) ex o by (simp add: atMostOnce_def distinct_update)
  have b: "invokedExecuted ?st2"
    using assms(3) ex o by (auto simp: invokedExecuted_def)
  have c: "invokedAfterUpstream w ?st2"
    by (rule invokedAfterUpstream_mono [OF assms(2)]) (use ex o in auto)
  show ?thesis using a b c ex o by simp
qed

lemma followEdges_runs:
  assumes exec: "\<And>n s. n \<in> set (nodes w) \<Longrightarrow> runReady f w s
                   \<Longrightarrow> \<exists>r s'. exec n s = Some (r, s') \<and> runStep w s r s'"
    and ready: "runReady f w st"
  shows "\<exists>r st'. followEdges exec js w data es st = Some (r, st') \<and> runStep w st r st'"
  using ready
proof (induction es arbitrary: st)
  case Nil
  then show ?case by (simp add: runReady_runStep [of f])
next
  case (Cons edge rest)
  let ?c = "case condition edge of None \<Rightarrow> Inr True | Some c \<Rightarrow> evaluateCondition js (Some c) data"
  show ?case
  proof (cases ?c)
    case (Inl err)
    have "runStep w st (Some err) st"
      using Cons.prems by (simp add: runReady_def runStep_def)
    then show ?thesis using Inl by simp
  next
    case (Inr b)
    show ?thesis
    proof (cases "b \<and> find (\<lambda>n. nodeId n = target edge) (nodes w) \<noteq> None")
      case False
      then have "followEdges exec js w data (edge # rest) st = followEdges exec js w data rest st"
        using Inr by (auto split: option.splits bool.splits)
      then show ?thesis using Cons.IH [OF Cons.prems] by simp
    next
      case True
      then obtain nextNode where nn: "find (\<lambda>n. nodeId n = target edge) (nodes w) = Some nextNode"
        by auto
      then have "nextNode \<in> set (nodes w)"
        by (auto simp: find_Some_iff)
      from exec [OF this Cons.prems] obtain r s' where
        ex: "exec nextNode st = Some (r, s')" and step: "runStep w st r s'" by blast
      show ?thesis
      proof (cases r)
        case (Some err)
        then show ?thesis using Inr True nn ex step by simp
      next
        case None
        with step have "runReady f w s'" using runStep_runReady [OF Cons.prems] by simp
        from Cons.IH [OF this] obtain r2 st2 where
          "followEdges exec js w data rest s' = Some (r2, st2)" "runStep w s' r2 st2" by blast
        then show ?thesis
          using Inr True nn ex None step runStep_trans [of w st s' r2 st2] by simp
      qed
    qed
  qed
qed

lemma executeNode_dispatches:
  "node \<in> set (nodes w) \<Longrightarrow> runReady f w st
     \<Longrightarrow> \<exists>r st'. executeNode f env w node st = Some (r, st') \<and> runStep w st r st'
           \<and> (nodeId node \<notin> set (executedNodes st) \<and> upstreamExecuted w st (nodeId node)
                \<and> getHandler env (nodeType node) \<noteq> None
                \<longrightarrow> nodeId node \<in> set (invoked st'))"
proof (induction f arbitrary: node st)
  case 0
  then show ?case by (simp add: runReady_def)
next
  case (Suc f)
  note ready = Suc.prems(2)
  show ?case
  proof (cases "nodeId node \<in> set (executedNodes st) \<or> \<not> upstreamExecuted w st (nodeId node)")
    case True
    then have "executeNode (Suc f) env w node st = Some (None, st)" by auto
    then show ?thesis using runReady_runStep [OF ready] True by auto
  next
    case False
    then have fresh: "nodeId node \<notin> set (executedNodes st)"
      and up: "upstreamExecuted w st (nodeId node)" by auto
    obtain r st1 where d: "tryDispatch env w node st = (r, st1)"
      by (cases "tryDispatch env w node st")
    from ready have inv: "atMostOnce st" "invokedExecuted st" "invokedAfterUpstream w st"
      by (simp_all add: runReady_def)
    note t = tryDispatch_inv [OF d inv fresh up]
    show ?thesis
    proof (cases "\<exists>err. r = Inl err \<and> stopOnError w")
      case True
      then obtain err where "r = Inl err" "stopOnError w" by blast
      then have "executeNode (Suc f) env w node st = Some (Some err, st1)"
        using fresh up d by simp
      moreover have "runStep w st (Some err) st1" using t by (simp add: runStep_def)
      ultimately show ?thesis using t by simp
    next
      case False
      define res where "res = (case r of
          Inl err \<Rightarrow> \<lparr>resNodeId = nodeId node, resStatus = NodeError, resData = JUndefined,
                       resError = Some err\<rparr>
        | Inr out \<Rightarrow> \<lparr>resNodeId = nodeId node, resStatus = NodeSuccess, resData = out,
                       resError = None\<rparr>)"
      define st2 where "st2 = recordResult node res st1"
      have eq: "executeNode (Suc f) env w node st =
          followEdges (executeNode f env w) (builtins env) w (resData res)
            (getOutgoingEdges w (nodeId node)) st2"
        using False fresh up d by (cases r) (simp_all add: res_def st2_def)
      have fresh1: "nodeId node \<notin> set (executedNodes st1)" using t fresh by simp
      have sub: "set (invoked st1) \<subseteq> insert (nodeId node) (set (executedNodes st1))"
        using t by simp
      from recordResult_inv [OF _ _ sub fresh1, of w res] t
      have r2: "atMostOnce st2" "invokedExecuted st2" "invokedAfterUpstream w st2"
        "set (executedNodes st2) = insert (nodeId node) (set (executedNodes st1))"
        "invoked st2 = invoked st1"
        by (simp_all add: st2_def)
      have ex2: "set (executedNodes st2) = insert (nodeId node) (set (executedNodes st))"
        using r2(4) t by simp
      have "unexecuted w st2 < unexecuted w st"
        by (rule unexecuted_less [OF Suc.prems(1) fresh ex2])
      with ready have ready2: "runReady f w st2"
        using r2 by (simp add: runReady_def)
      have "\<exists>r' st'. followEdges (executeNode f env w) (builtins env) w (resData res)
            (getOutgoingEdges w (nodeId node)) st2 = Some (r', st') \<and> runStep w st2 r' st'"
      proof (rule followEdges_runs [OF _ ready2])
        fix n s
        assume "n \<in> set (nodes w)" "runReady f w s"
        from Suc.IH [OF this]
        show "\<exists>r s'. executeNode f env w n s = Some (r, s') \<and> runStep w s r s'" by blast
      qed
      then obtain r' st' where
        f: "followEdges (executeNode f env w) (builtins env) w (resData res)
              (getOutgoingEdges w (nodeId node)) st2 = Some (r', st')"
        and s: "runStep w st2 r' st'" by blast
      have "runStep w st r' st'"
        using s ex2 r2(5) t by (auto simp: runStep_def)
      moreover have "getHandler env (nodeType node) \<noteq> None \<longrightarrow> nodeId node \<in> set (invoked st')"
        using s r2(5) t by (auto simp: runStep_def)
      ultimately show ?thesis using eq f by simp
    qed
  qed
qed

lemma executeNode_runs:
  "node \<in> set (nodes w) \<Longrightarrow> runReady f w st
     \<Longrightarrow> \<exists>r st'. executeNode f env w node st = Some (r, st') \<and> runStep w st r st'"
  using executeNode_dispatches [of node w f st env] by blast

lemma executeStartNodes_runs:
  assumes exec: "\<And>n s. n \<in> set (nodes w) \<Longrightarrow> runReady f w s
                   \<Longrightarrow> \<exists>r s'. exec n s = Some (r, s') \<and> runStep w s r s'"
    and sub: "set ns \<subseteq> set (nodes w)"
    and ready: "runReady f w st"
  shows "\<exists>r st'. executeStartNodes exec ns st = Some (r, st') \<and> runStep w st r st'"
  using sub ready
proof (induction ns arbitrary: st)
  case Nil
  then show ?case by (simp add: runReady_runStep [of f])
next
  case (Cons n ns)
  then have "n \<in> set (nodes w)" by simp
  from exec [OF this Cons.prems(2)] obtain r s' where
    ex: "exec n st = Some (r, s')" and step: "runStep w st r s'" by blast
  show ?case
  proof (cases r)
    case (Some err)
    then show ?thesis using ex step by simp
  next
    case None
    with step have "runReady f w s'" using runStep_runReady [OF Cons.prems(2)] by simp
    from Cons.IH [OF _ this] Cons.prems(1) obtain r2 st2 where
      "executeStartNodes exec ns s' = Some (r2, st2)" "runStep w s' r2 st2" by auto
    then show ?thesis
      using ex None step runStep_trans [of w st s' r2 st2] by simp
  qed
qed

lemma seedStartNodes_state:
  "executedNodes (seedStartNodes ns st) = executedNodes st
   \<and> invoked (seedStartNodes ns st) = invoked st
   \<and> nodeResults (seedStartNodes ns st) = nodeResults st
   \<and> (distinct (map fst (nodeOutputs (ctx st)))
        \<longrightarrow> distinct (map fst (nodeOutputs (ctx (seedStartNodes ns st)))))"
proof -
  have "executedNodes (foldl (\<lambda>s node. setNodeOutput (nodeId node) (input (ctx s)) s) st ns) = executedNodes st
   \<and> invoked (foldl (\<lambda>s node. setNodeOutput (nodeId node) (input (ctx s)) s) st ns) = invoked st
   \<and> nodeResults (foldl (\<lambda>s node. setNodeOutput (nodeId node) (input (ctx s)) s) st ns) = nodeResults st
   \<and> (distinct (map fst (nodeOutputs (ctx st)))
        \<longrightarrow> distinct (map fst (nodeOutputs (ctx (foldl (\<lambda>s node. setNodeOutput (nodeId node) (input (ctx s)) s) st ns)))))"
    by (induction ns arbitrary: st) (simp_all add: setNodeOutput_def distinct_update)
  then show ?thesis by (simp add: seedStartNodes_def)
qed

lemma unexecuted_le: "unexecuted w st \<le> length (nodes w)"
proof -
  have "unexecuted w st \<le> card (nodeId ` set (nodes w))"
    unfolding unexecuted_def by (rule card_mono) auto
  also have "\<dots> \<le> card (set (nodes w))" by (rule card_image_le) simp
  also have "\<dots> \<le> length (nodes w)" by (rule card_length)
  finally show ?thesis .
qed

lemma newEngine_ready:
  "runReady (Suc (length (nodes w))) w (seedStartNodes ns (newEngine u w inp uid m))"
proof -
  let ?st = "newEngine u w inp uid m"
  have "executedNodes ?st = []" "invoked ?st = []" "nodeResults ?st = []" "nodeOutputs (ctx ?st) = []"
    by (simp_all add: newEngine_def)
  then show ?thesis
    using seedStartNodes_state [of ns ?st] unexecuted_le [of w "seedStartNodes ns ?st"]
    by (simp add: runReady_def atMostOnce_def invokedExecuted_def invokedAfterUpstream_def)
qed

lemma findStartNodes_subset: "set (findStartNodes w) \<subseteq> set (nodes w)"
  by (auto simp: findStartNodes_def)

lemma traverse_runs:
  "\<exists>r st'. traverse env w (newEngine u w inp uid m) = Some (r, st')
     \<and> atMostOnce st' \<and> invokedAfterUpstream w st'"
proof (cases "findStartNodes w = []")
  case True
  then show ?thesis
    by (simp add: traverse_def newEngine_def atMostOnce_def invokedAfterUpstream_def)
next
  case False
  let ?st = "seedStartNodes (findStartNodes w) (newEngine u w inp uid m)"
  have "\<exists>r st'. executeStartNodes (executeNode (Suc (length (nodes w))) env w) (findStartNodes w) ?st
           = Some (r, st') \<and> runStep w ?st r st'"
    by (rule executeStartNodes_runs [OF executeNode_runs findStartNodes_subset newEngine_ready])
  then show ?thesis using False by (auto simp: traverse_def runStep_def)
qed

lemma execute_returns: "\<exists>res. execute env w (newEngine u w inp uid m) = Some res"
  using traverse_runs [of env w u inp uid m]
  by (auto simp: execute_def Let_def split: option.splits)

lemma upstreamExecuted_iff:
  "upstreamExecuted w st n \<longleftrightarrow>
     (\<forall>e \<in> set (edges w). target e = n \<longrightarrow> source e \<in> set (executedNodes st))"
  by (auto simp: upstreamExecuted_def getIncomingEdges_def list_all_iff)

lemma executeNode_deferred:
  "nodeId node \<in> set (executedNodes st) \<or> \<not> upstreamExecuted w st (nodeId node)
     \<Longrightarrow> executeNode (Suc fuel) env w node st = Some (None, st)"
  by auto

text \<open>
  Claim C2. Every execution returns, and in the state it leaves no node id occurs twice in
  \<open>executedNodes\<close>, no key occurs twice in \<open>nodeOutputs\<close>, no node's handler has been
  called twice, and every node whose handler has been called has the sources of all the
  edges that target it in \<open>executedNodes\<close>. An attempt on a node that is already executed,
  or that is the target of an edge whose source is not yet executed, returns at once and
  leaves the state as it was. An attempt on a node of the workflow that is not yet executed
  and whose upstream nodes all are calls the node's handler, if one is registered; with the
  first part, that call is the only one.
\<close>

theorem handler_runs_at_most_once:
  "(\<exists>r st'. traverse env w (newEngine u w inp uid m) = Some (r, st')
       \<and> distinct (executedNodes st')
       \<and> distinct (map fst (nodeOutputs (ctx st')))
       \<and> distinct (invoked st')
       \<and> (\<forall>n \<in> set (invoked st'). \<forall>e \<in> set (edges w).
             target e = n \<longrightarrow> source e \<in> set (executedNodes st')))
   \<and> (nodeId node \<in> set (executedNodes st)
        \<or> (\<exists>e \<in> set (edges w). target e = nodeId node \<and> source e \<notin> set (executedNodes st))
       \<longrightarrow> executeNode (Suc fuel) env w node st = Some (None, st))
   \<and> (node \<in> set (nodes w) \<and> runReady (Suc fuel) w st
        \<and> nodeId node \<notin> set (executedNodes st)
        \<and> (\<forall>e \<in> set (edges w). target e = nodeId node \<longrightarrow> source e \<in> set (executedNodes st))
        \<and> getHandler env (nodeType node) \<noteq> None
       \<longrightarrow> (\<exists>r st'. executeNode (Suc fuel) env w node st = Some (r, st')
              \<and> nodeId node \<in> set (invoked st') \<and> distinct (invoked st')))"
proof -
  have run: "\<exists>r st'. traverse env w (newEngine u w inp uid m) = Some (r, st')
       \<and> distinct (executedNodes st')
       \<and> distinct (map fst (nodeOutputs (ctx st')))
       \<and> distinct (invoked st')
       \<and> (\<forall>n \<in> set (invoked st'). \<forall>e \<in> set (edges w).
             target e = n \<longrightarrow> source e \<in> set (executedNodes st'))"
  proof -
    obtain r st' where t: "traverse env w (newEngine u w inp uid m) = Some (r, st')"
      and a: "atMostOnce st'" and b: "invokedAfterUpstream w st'"
      using traverse_runs [of env w u inp uid m] by blast
    have "\<forall>n \<in> set (invoked st'). \<forall>e \<in> set (edges w).
             target e = n \<longrightarrow> source e \<in> set (executedNodes st')"
      using b by (simp add: invokedAfterUpstream_def list_all_iff upstreamExecuted_iff)
    then show ?thesis using t a by (auto simp: atMostOnce_def)
  qed
  have deferred: "nodeId node \<in> set (executedNodes st)
        \<or> (\<exists>e \<in> set (edges w). target e = nodeId node \<and> source e \<notin> set (executedNodes st))
       \<longrightarrow> executeNode (Suc fuel) env w node st = Some (None, st)"
    using executeNode_deferred [of node st w fuel env] upstreamExecuted_iff [of w st "nodeId node"]
    by blast
  have first: "node \<in> set (nodes w) \<and> runReady (Suc fuel) w st
        \<and> nodeId node \<notin> set (executedNodes st)
        \<and> (\<forall>e \<in> set (edges w). target e = nodeId node \<longrightarrow> source e \<in> set (executedNodes st))
        \<and> getHandler env (nodeType node) \<noteq> None
       \<longrightarrow> (\<exists>r st'. executeNode (Suc fuel) env w node st = Some (r, st')
              \<and> nodeId node \<in> set (invoked st') \<and> distinct (invoked st'))"
  proof
    assume h: "node \<in> set (nodes w) \<and> runReady (Suc fuel) w st
        \<and> nodeId node \<notin> set (executedNodes st)
        \<and> (\<forall>e \<in> set (edges w). target e = nodeId node \<longrightarrow> source e \<in> set (executedNodes st))
        \<and> getHandler env (nodeType node) \<noteq> None"
    then have up: "upstreamExecuted w st (nodeId node)" by (simp add: upstreamExecuted_iff)
    from h executeNode_dispatches [of node w "Suc fuel" st env] up
    obtain r st' where "executeNode (Suc fuel) env w node st = Some (r, st')"
      "runStep w st r st'" "nodeId node \<in> set (invoked st')"
      by blast
    then show "\<exists>r st'. executeNode (Suc fuel) env w node st = Some (r, st')
              \<and> nodeId node \<in> set (invoked st') \<and> distinct (invoked st')"
      by (auto simp: runStep_def atMostOnce_def)
  qed
  from run deferred first show ?thesis by (intro conjI)
qed

theorem handler_runs_at_most_once_witness:
  "(\<exists>r st'. traverse exampleEnv (exampleChain ACTION_SET None)
        (newEngine ''e1'' (exampleChain ACTION_SET None) JUndefined None Manual) = Some (r, st')
      \<and> distinct (executedNodes st') \<and> distinct (invoked st'))
   \<and> executeNode 4 exampleEnv (exampleChain ACTION_SET None) (mkNode ''B'' ACTION_SET)
        (newEngine ''e1'' (exampleChain ACTION_SET None) JUndefined None Manual)
      = Some (None, newEngine ''e1'' (exampleChain ACTION_SET None) JUndefined None Manual)
   \<and> (\<exists>r st'. executeNode 4 exampleEnv (exampleChain ACTION_SET None) (mkNode ''A'' TRIGGER_MANUAL)
        (newEngine ''e1'' (exampleChain ACTION_SET None) JUndefined None Manual) = Some (r, st')
      \<and> ''A'' \<in> set (invoked st') \<and> distinct (invoked st'))"
proof -
  let ?w = "exampleChain ACTION_SET None"
  let ?st = "newEngine ''e1'' ?w JUndefined None Manual"
  have four: "(4::nat) = Suc 3" by simp
  have a: "\<exists>r st'. traverse exampleEnv ?w ?st = Some (r, st')
      \<and> distinct (executedNodes st') \<and> distinct (invoked st')"
    using handler_runs_at_most_once [where env = exampleEnv and w = ?w and u = "''e1''"
        and inp = JUndefined and uid = None and m = Manual]
    by blast
  have hb: "\<exists>e \<in> set (edges ?w). target e = nodeId (mkNode ''B'' ACTION_SET)
      \<and> source e \<notin> set (executedNodes ?st)"
    by (simp add: exampleChain_def mkEdge_def mkNode_def newEngine_def)
  have b: "executeNode 4 exampleEnv ?w (mkNode ''B'' ACTION_SET) ?st = Some (None, ?st)"
    unfolding four
    using handler_runs_at_most_once [where w = ?w and node = "mkNode ''B'' ACTION_SET"
        and st = ?st and fuel = 3 and env = exampleEnv] hb
    by blast
  have len: "length (nodes ?w) = 3"
    by (simp add: exampleChain_def)
  have seed: "seedStartNodes [] ?st = ?st"
    by (simp add: seedStartNodes_def)
  have ready: "runReady (Suc 3) ?w ?st"
    using newEngine_ready [of ?w "[]" "''e1''" JUndefined None Manual]
    unfolding len seed .
  have hc: "mkNode ''A'' TRIGGER_MANUAL \<in> set (nodes ?w)
      \<and> nodeId (mkNode ''A'' TRIGGER_MANUAL) \<notin> set (executedNodes ?st)
      \<and> (\<forall>e \<in> set (edges ?w). target e = nodeId (mkNode ''A'' TRIGGER_MANUAL)
            \<longrightarrow> source e \<in> set (executedNodes ?st))
      \<and> getHandler exampleEnv (nodeType (mkNode ''A'' TRIGGER_MANUAL)) \<noteq> None"
    by (simp add: exampleChain_def mkEdge_def mkNode_def newEngine_def exampleEnv_def)
  have c: "\<exists>r st'. executeNode 4 exampleEnv ?w (mkNode ''A'' TRIGGER_MANUAL) ?st = Some (r, st')
      \<and> ''A'' \<in> set (invoked st') \<and> distinct (invoked st')"
    unfolding four
    using handler_runs_at_most_once [where w = ?w and node = "mkNode ''A'' TRIGGER_MANUAL"
        and st = ?st and fuel = 3 and env = exampleEnv] ready hc
    by (simp add: mkNode_def)
  show ?thesis using a b c by blast
qed

section \<open>The final output\<close>

lemma findEndNodes_filter:
  "findEndNodes w = filter (\<lambda>n. \<forall>e \<in> set (edges w). source e \<noteq> nodeId n) (nodes w)"
  unfolding findEndNodes_def Let_def
  by (rule filter_cong) (auto simp: image_iff)

lemma chain_output:
  assumes ids: "a \<noteq> b" "b \<noteq> c" "a \<noteq> c"
    and ns: "nodes w \<in> {[A, B, C], [A, C, B], [B, A, C], [B, C, A], [C, A, B], [C, B, A]}"
    and es: "edges w \<in> {[e1, e2], [e2, e1]}"
    and n: "nodeId A = a" "nodeId B = b" "nodeId C = c"
    and e: "source e1 = a" "target e1 = b" "condition e1 = None"
           "source e2 = b" "target e2 = c" "condition e2 = None"
    and h: "getHandler env (nodeType A) = Some passThrough"
           "getHandler env (nodeType B) = Some passThrough"
           "getHandler env (nodeType C) = Some passThrough"
  shows "execute env w (newEngine u w inp uid m) =
     Some \<lparr>resExecutionId = u, status = Success,
           results = [\<lparr>resNodeId = a, resStatus = NodeSuccess, resData = orElse inp (JObj []), resError = None\<rparr>,
                      \<lparr>resNodeId = b, resStatus = NodeSuccess, resData = orElse inp (JObj []), resError = None\<rparr>,
                      \<lparr>resNodeId = c, resStatus = NodeSuccess, resData = orElse inp (JObj []), resError = None\<rparr>],
           execOutput = orElse inp (JObj []), execError = None\<rparr>"
proof -
  have ids': "b \<noteq> a" "c \<noteq> b" "c \<noteq> a" using ids by auto
  from ns es show ?thesis
    using ids ids'
    by (elim insertE emptyE)
       (simp_all add: execute_def traverse_def findStartNodes_def findEndNodes_def Let_def n e h
        newEngine_def seedStartNodes_def setNodeOutput_def upstreamExecuted_def
        getIncomingEdges_def getOutgoingEdges_def tryDispatch_def gatherNodeInput_def
        passThrough_def recordResult_def setAdd_def mapGet_def orElse_def)
qed

lemma execute_success:
  assumes "execute env w st = Some res" "status res = Success"
  shows "\<exists>st'. traverse env w st = Some (None, st')
     \<and> execOutput res =
         (if findEndNodes w = [] then JUndefined
          else mapGet (nodeOutputs (ctx st')) (nodeId (last (findEndNodes w))))"
  using assms
  by (auto simp: execute_def Let_def split: option.splits prod.splits)

text \<open>
  Claim C6. The end nodes are, in declaration order, the nodes that are the source of no
  edge. Every execution returns a result; when its status is \<open>success\<close>, its output is
  the output recorded in \<open>nodeOutputs\<close> for the last end node (undefined when there is no
  end node, or nothing recorded for it). In particular, for a chain of three nodes with
  distinct ids A \<open>\<rightarrow>\<close> B \<open>\<rightarrow>\<close> C, declared in any order, with unconditional edges and
  handlers that return their input, the execution succeeds, the three nodes run in the
  order A, B, C, and the output is the value that C produced.
\<close>

theorem execute_output_last_end_node:
  "findEndNodes w = filter (\<lambda>n. \<forall>e \<in> set (edges w). source e \<noteq> nodeId n) (nodes w)
   \<and> (\<exists>res. execute env w (newEngine u w inp uid m) = Some res)
   \<and> (execute env w st = Some res \<and> status res = Success \<longrightarrow>
        (\<exists>st'. traverse env w st = Some (None, st')
           \<and> execOutput res =
               (if findEndNodes w = [] then JUndefined
                else mapGet (nodeOutputs (ctx st')) (nodeId (last (findEndNodes w))))))
   \<and> (a \<noteq> b \<and> b \<noteq> c \<and> a \<noteq> c
        \<and> nodes w \<in> {[A, B, C], [A, C, B], [B, A, C], [B, C, A], [C, A, B], [C, B, A]}
        \<and> edges w \<in> {[e1, e2], [e2, e1]}
        \<and> nodeId A = a \<and> nodeId B = b \<and> nodeId C = c
        \<and> source e1 = a \<and> target e1 = b \<and> condition e1 = None
        \<and> source e2 = b \<and> target e2 = c \<and> condition e2 = None
        \<and> getHandler env (nodeType A) = Some passThrough
        \<and> getHandler env (nodeType B) = Some passThrough
        \<and> getHandler env (nodeType C) = Some passThrough \<longrightarrow>
        execute env w (newEngine u w inp uid m) =
          Some \<lparr>resExecutionId = u, status = Success,
                results =
                  [\<lparr>resNodeId = a, resStatus = NodeSuccess, resData = orElse inp (JObj []),
                    resError = None\<rparr>,
                   \<lparr>resNodeId = b, resStatus = NodeSuccess, resData = orElse inp (JObj []),
                    resError = None\<rparr>,
                   \<lparr>resNodeId = c, resStatus = NodeSuccess, resData = orElse inp (JObj []),
                    resError = None\<rparr>],
                execOutput = orElse inp (JObj []), execError = None\<rparr>)"
  using findEndNodes_filter [of w] execute_returns [of env w u inp uid m]
    execute_success [of env w st res]
    chain_output [of a b c w A B C e1 e2 env u inp uid m]
  by blast

theorem execute_output_last_end_node_witness:
  "findEndNodes exampleMerge = [mkNode ''M'' ACTION_MERGE, mkNode ''N'' ACTION_SET]
   \<and> (\<exists>st'. traverse exampleTagEnv exampleMerge
                (newEngine ''e1'' exampleMerge JUndefined None Manual) = Some (None, st')
          \<and> mapGet (nodeOutputs (ctx st')) ''N'' = JStr ''N'')
   \<and> execute exampleEnv (exampleChain ACTION_SET None)
        (newEngine ''e1'' (exampleChain ACTION_SET None) (JObj [(''x'', JNum (Fin 1))]) None Manual) =
        Some \<lparr>resExecutionId = ''e1'', status = Success,
              results =
                [\<lparr>resNodeId = ''A'', resStatus = NodeSuccess,
                  resData = JObj [(''x'', JNum (Fin 1))], resError = None\<rparr>,
                 \<lparr>resNodeId = ''B'', resStatus = NodeSuccess,
                  resData = JObj [(''x'', JNum (Fin 1))], resError = None\<rparr>,
                 \<lparr>resNodeId = ''C'', resStatus = NodeSuccess,
                  resData = JObj [(''x'', JNum (Fin 1))], resError = None\<rparr>],
              execOutput = JObj [(''x'', JNum (Fin 1))], execError = None\<rparr>"
proof -
  let ?st = "newEngine ''e1'' exampleMerge JUndefined None Manual"
  let ?res = "\<lparr>resExecutionId = ''e1'', status = Success,
      results =
        [\<lparr>resNodeId = ''S1'', resStatus = NodeSuccess, resData = JStr ''S1'', resError = None\<rparr>,
         \<lparr>resNodeId = ''N'', resStatus = NodeSuccess, resData = JStr ''N'', resError = None\<rparr>,
         \<lparr>resNodeId = ''S2'', resStatus = NodeSuccess, resData = JStr ''S2'', resError = None\<rparr>,
         \<lparr>resNodeId = ''M'', resStatus = NodeSuccess, resData = JStr ''M'', resError = None\<rparr>],
      execOutput = JStr ''N'', execError = None\<rparr>"
  let ?w = "exampleChain ACTION_SET None"
  have ends: "findEndNodes exampleMerge = [mkNode ''M'' ACTION_MERGE, mkNode ''N'' ACTION_SET]"
    by code_simp
  have run: "execute exampleTagEnv exampleMerge ?st = Some ?res \<and> status ?res = Success"
    by code_simp
  from execute_output_last_end_node [where env = exampleTagEnv and w = exampleMerge
        and st = ?st and res = ?res] run
  obtain st' where t: "traverse exampleTagEnv exampleMerge ?st = Some (None, st')"
    and o: "execOutput ?res =
      (if findEndNodes exampleMerge = [] then JUndefined
       else mapGet (nodeOutputs (ctx st')) (nodeId (last (findEndNodes exampleMerge))))"
    by blast
  have "mapGet (nodeOutputs (ctx st')) ''N'' = JStr ''N''"
    using o unfolding ends by (simp add: mkNode_def)
  with t have a: "\<exists>st'. traverse exampleTagEnv exampleMerge ?st = Some (None, st')
          \<and> mapGet (nodeOutputs (ctx st')) ''N'' = JStr ''N''"
    by blast
  have h: "''A'' \<noteq> ''B'' \<and> ''B'' \<noteq> ''C'' \<and> ''A'' \<noteq> ''C''
      \<and> nodes ?w \<in> {[mkNode ''A'' TRIGGER_MANUAL, mkNode ''B'' ACTION_SET, mkNode ''C'' ACTION_SET]}
      \<and> edges ?w \<in> {[mkEdge ''A'' ''B'' None, mkEdge ''B'' ''C'' None]}
      \<and> getHandler exampleEnv TRIGGER_MANUAL = Some passThrough
      \<and> getHandler exampleEnv ACTION_SET = Some passThrough"
    by (simp add: exampleChain_def exampleEnv_def)
  have b: "execute exampleEnv ?w (newEngine ''e1'' ?w (JObj [(''x'', JNum (Fin 1))]) None Manual) =
        Some \<lparr>resExecutionId = ''e1'', status = Success,
              results =
                [\<lparr>resNodeId = ''A'', resStatus = NodeSuccess,
                  resData = JObj [(''x'', JNum (Fin 1))], resError = None\<rparr>,
                 \<lparr>resNodeId = ''B'', resStatus = NodeSuccess,
                  resData = JObj [(''x'', JNum (Fin 1))], resError = None\<rparr>,
                 \<lparr>resNodeId = ''C'', resStatus = NodeSuccess,
                  resData = JObj [(''x'', JNum (Fin 1))], resError = None\<rparr>],
              execOutput = JObj [(''x'', JNum (Fin 1))], execError = None\<rparr>"
    using execute_output_last_end_node [where env = exampleEnv and w = ?w
        and a = "''A''" and b = "''B''" and c = "''C''"
        and A = "mkNode ''A'' TRIGGER_MANUAL" and B = "mkNode ''B'' ACTION_SET"
        and C = "mkNode ''C'' ACTION_SET"
        and ?e1.0 = "mkEdge ''A'' ''B'' None" and ?e2.0 = "mkEdge ''B'' ''C'' None"
        and u = "''e1''" and inp = "JObj [(''x'', JNum (Fin 1))]" and uid = None and m = Manual] h
    by (simp add: mkNode_def mkEdge_def orElse_def)
  show ?thesis using ends a b by blast
qed

section \<open>The error policy\<close>

text \<open>
  With an error policy other than \<open>continue\<close>, no call ever records the result of a
  failed node: the results of a run, failed or not, are all of status \<open>success\<close>.
\<close>

lemma update_member: "x \<in> set (AList.update k v al) \<Longrightarrow> x = (k, v) \<or> x \<in> set al"
  by (induction al) (auto split: if_splits)

lemma recordResult_successesOnly:
  "successesOnly st \<Longrightarrow> resStatus res = NodeSuccess \<Longrightarrow> successesOnly (recordResult node res st)"
  by (auto simp: successesOnly_def recordResult_def list_all_iff dest: update_member)

lemma tryDispatch_successesOnly:
  "tryDispatch env w node st = (r, st1) \<Longrightarrow> successesOnly st \<Longrightarrow> successesOnly st1"
  using tryDispatch_state [of env w node st r st1] by (simp add: successesOnly_def)

lemma followEdges_successesOnly:
  assumes exec: "\<And>n s r s'. exec n s = Some (r, s') \<Longrightarrow> successesOnly s \<Longrightarrow> successesOnly s'"
  shows "followEdges exec js w data es st = Some (r, st') \<Longrightarrow> successesOnly st
     \<Longrightarrow> successesOnly st'"
proof (induction es arbitrary: st)
  case Nil
  then show ?case by simp
next
  case (Cons edge rest)
  let ?c = "case condition edge of None \<Rightarrow> Inr True | Some c \<Rightarrow> evaluateCondition js (Some c) data"
  show ?case
  proof (cases ?c)
    case (Inl err)
    then show ?thesis using Cons.prems by simp
  next
    case (Inr b)
    show ?thesis
    proof (cases "b \<and> find (\<lambda>n. nodeId n = target edge) (nodes w) \<noteq> None")
      case False
      then have "followEdges exec js w data (edge # rest) st = followEdges exec js w data rest st"
        using Inr by (auto split: option.splits bool.splits)
      then show ?thesis using Cons by simp
    next
      case True
      then obtain nextNode where nn: "find (\<lambda>n. nodeId n = target edge) (nodes w) = Some nextNode"
        by auto
      show ?thesis
      proof (cases "exec nextNode st")
        case None
        then show ?thesis using Cons.prems Inr True nn by simp
      next
        case (Some p)
        obtain r1 s1 where p: "p = (r1, s1)" by (cases p)
        have s1: "successesOnly s1" using exec [of nextNode st r1 s1] Some p Cons.prems(2) by simp
        show ?thesis
        proof (cases r1)
          case None
          then have "followEdges exec js w data rest s1 = Some (r, st')"
            using Cons.prems(1) Inr True nn Some p by simp
          then show ?thesis using Cons.IH s1 by blast
        next
          case (Some err)
          then have "st' = s1" using Cons.prems(1) Inr True nn \<open>exec nextNode st = Some p\<close> p by simp
          then show ?thesis using s1 by simp
        qed
      qed
    qed
  qed
qed

lemma executeNode_successesOnly:
  "stopOnError w \<Longrightarrow> executeNode f env w node st = Some (r, st') \<Longrightarrow> successesOnly st
     \<Longrightarrow> successesOnly st'"
proof (induction f arbitrary: node st r st')
  case 0
  then show ?case by simp
next
  case (Suc f)
  show ?case
  proof (cases "nodeId node \<in> set (executedNodes st) \<or> \<not> upstreamExecuted w st (nodeId node)")
    case True
    then have "executeNode (Suc f) env w node st = Some (None, st)" by auto
    then show ?thesis using Suc.prems by simp
  next
    case False
    obtain d st1 where d: "tryDispatch env w node st = (d, st1)"
      by (cases "tryDispatch env w node st")
    have s1: "successesOnly st1" using tryDispatch_successesOnly [OF d Suc.prems(3)] .
    show ?thesis
    proof (cases d)
      case (Inl err)
      then have "executeNode (Suc f) env w node st = Some (Some err, st1)"
        using False d Suc.prems(1) by simp
      then show ?thesis using Suc.prems(2) s1 by simp
    next
      case (Inr out)
      let ?res = "\<lparr>resNodeId = nodeId node, resStatus = NodeSuccess, resData = out, resError = None\<rparr>"
      have "followEdges (executeNode f env w) (builtins env) w out
               (getOutgoingEdges w (nodeId node)) (recordResult node ?res st1) = Some (r, st')"
        using False d Inr Suc.prems(2) by simp
      moreover have "successesOnly (recordResult node ?res st1)"
        using recordResult_successesOnly [OF s1] by simp
      ultimately show ?thesis
        using followEdges_successesOnly [of "executeNode f env w"] Suc.IH [OF Suc.prems(1)]
        by blast
    qed
  qed
qed

lemma executeStartNodes_successesOnly:
  assumes exec: "\<And>n s r s'. exec n s = Some (r, s') \<Longrightarrow> successesOnly s \<Longrightarrow> successesOnly s'"
  shows "executeStartNodes exec ns st = Some (r, st') \<Longrightarrow> successesOnly st \<Longrightarrow> successesOnly st'"
proof (induction ns arbitrary: st)
  case Nil
  then show ?case by simp
next
  case (Cons n ns)
  show ?case
  proof (cases "exec n st")
    case None
    then show ?thesis using Cons.prems by simp
  next
    case (Some p)
    obtain r1 s1 where p: "p = (r1, s1)" by (cases p)
    have s1: "successesOnly s1" using exec [of n st r1 s1] Some p Cons.prems(2) by simp
    show ?thesis
    proof (cases r1)
      case None
      then have "executeStartNodes exec ns s1 = Some (r, st')"
        using Cons.prems(1) Some p by simp
      then show ?thesis using Cons.IH s1 by blast
    next
      case (Some err)
      then have "st' = s1" using Cons.prems(1) \<open>exec n st = Some p\<close> p by simp
      then show ?thesis using s1 by simp
    qed
  qed
qed

lemma stop_mode_results_all_success:
  assumes "stopOnError w" "execute env w (newEngine u w inp uid m) = Some res"
  shows "\<forall>x \<in> set (results res). resStatus x = NodeSuccess"
proof -
  let ?st = "newEngine u w inp uid m"
  obtain r st' where t: "traverse env w ?st = Some (r, st')"
    and res: "results res = map snd (nodeResults st')"
    using assms(2) by (auto simp: execute_def Let_def split: option.splits prod.splits)
  have s0: "successesOnly (seedStartNodes (findStartNodes w) ?st)" "successesOnly ?st"
    using seedStartNodes_state [of "findStartNodes w" ?st]
    by (simp_all add: successesOnly_def newEngine_def)
  have "successesOnly st'"
  proof (cases "findStartNodes w = []")
    case True
    then show ?thesis using t s0 by (simp add: traverse_def)
  next
    case False
    then have "executeStartNodes (executeNode (Suc (length (nodes w))) env w) (findStartNodes w)
        (seedStartNodes (findStartNodes w) ?st) = Some (r, st')"
      using t by (simp add: traverse_def Let_def)
    then show ?thesis
      using executeStartNodes_successesOnly [of "executeNode (Suc (length (nodes w))) env w"]
        executeNode_successesOnly [OF assms(1)] s0(1)
      by blast
  qed
  then show ?thesis using res by (auto simp: successesOnly_def list_all_iff)
qed

text \<open>
  Claim C1 says that with an error policy other than \<open>continue\<close> the results of a failed
  run end with the entry of the failing node. The code throws before it records that entry.
  On the chain A \<open>\<rightarrow>\<close> B \<open>\<rightarrow>\<close> C whose middle node fails, with the policy \<open>stop\<close> the run
  fails and the results hold the entry of A alone; with the policy \<open>continue\<close> the run
  succeeds, B's entry has status \<open>error\<close>, and C has run on the empty object.
\<close>

theorem stop_mode_drops_failing_result:
  "execute exampleEnv (exampleChain ACTION_CODE (Some Stop))
      (newEngine ''e1'' (exampleChain ACTION_CODE (Some Stop)) (JObj [(''x'', JNum (Fin 1))])
         None Manual) =
     Some \<lparr>resExecutionId = ''e1'', status = Failed,
           results =
             [\<lparr>resNodeId = ''A'', resStatus = NodeSuccess,
               resData = JObj [(''x'', JNum (Fin 1))], resError = None\<rparr>],
           execOutput = JUndefined, execError = Some (HandlerError ''boom'')\<rparr>
   \<and> execute exampleEnv (exampleChain ACTION_CODE (Some Continue))
      (newEngine ''e1'' (exampleChain ACTION_CODE (Some Continue)) (JObj [(''x'', JNum (Fin 1))])
         None Manual) =
     Some \<lparr>resExecutionId = ''e1'', status = Success,
           results =
             [\<lparr>resNodeId = ''A'', resStatus = NodeSuccess,
               resData = JObj [(''x'', JNum (Fin 1))], resError = None\<rparr>,
              \<lparr>resNodeId = ''B'', resStatus = NodeError, resData = JUndefined,
               resError = Some (HandlerError ''boom'')\<rparr>,
              \<lparr>resNodeId = ''C'', resStatus = NodeSuccess, resData = JObj [],
               resError = None\<rparr>],
           execOutput = JObj [], execError = None\<rparr>"
  by code_simp

section \<open>The job queue and the scheduler\<close>

lemma executeDirect_registered:
  assumes "map_of (workflowStore svc) (payloadWorkflowId p) = Some w"
  shows "\<exists>res. executeWorkflow (engineEnv rt) (uuid rt (uuidsDrawn svc)) w (payloadInput p)
                  (payloadUserId p) (payloadMode p) = Some res
     \<and> executeDirect rt svc p =
          Some (Inr res, svc\<lparr>uuidsDrawn := Suc (uuidsDrawn svc), completed := completed svc @ [res]\<rparr>)"
proof -
  obtain res where "executeWorkflow (engineEnv rt) (uuid rt (uuidsDrawn svc)) w (payloadInput p)
                  (payloadUserId p) (payloadMode p) = Some res"
    using execute_returns [of "engineEnv rt" w "uuid rt (uuidsDrawn svc)" "payloadInput p"
        "payloadUserId p" "payloadMode p"]
    by (auto simp: executeWorkflow_def)
  then show ?thesis using assms by (simp add: executeDirect_def)
qed

lemma enqueue_direct:
  assumes direct: "queue svc = None"
    and reg: "map_of (workflowStore svc) wid = Some w"
  shows "\<exists>execId res svc'.
      enqueue rt br svc wid inp options = Some (Inr execId, svc')
      \<and> completed svc' = completed svc @ [res]
      \<and> (\<exists>u. executeWorkflow (engineEnv rt) u w inp (optUserId options)
                 (case optMode options of None \<Rightarrow> Manual | Some m \<Rightarrow> m) = Some res)
      \<and> queue svc' = None
      \<and> (\<forall>jid. getJobStatus br svc' jid = None)"
proof -
  define given where "given = (case optJobId options of None \<Rightarrow> False | Some j \<Rightarrow> j \<noteq> [])"
  define n1 where "n1 = (if given then uuidsDrawn svc else Suc (uuidsDrawn svc))"
  define execId where "execId = ''exec_'' @ uuid rt n1"
  define svc1 where "svc1 = svc\<lparr>uuidsDrawn := Suc n1\<rparr>"
  define payload where "payload = \<lparr>payloadWorkflowId = wid, payloadExecutionId = execId,
                     payloadInput = inp, payloadUserId = optUserId options,
                     payloadMode = (case optMode options of None \<Rightarrow> Manual | Some m \<Rightarrow> m)\<rparr>"
  have reg1: "map_of (workflowStore svc1) (payloadWorkflowId payload) = Some w"
    using reg by (simp add: svc1_def payload_def)
  from executeDirect_registered [OF reg1, of rt] obtain res where
    run: "executeWorkflow (engineEnv rt) (uuid rt (uuidsDrawn svc1)) w (payloadInput payload)
            (payloadUserId payload) (payloadMode payload) = Some res"
    and ed: "executeDirect rt svc1 payload =
          Some (Inr res, svc1\<lparr>uuidsDrawn := Suc (uuidsDrawn svc1), completed := completed svc1 @ [res]\<rparr>)"
    by blast
  let ?svc' = "svc1\<lparr>uuidsDrawn := Suc (uuidsDrawn svc1), completed := completed svc1 @ [res]\<rparr>"
  have "enqueue rt br svc wid inp options = Some (Inr execId, ?svc')"
    using direct ed
    unfolding enqueue_def Let_def given_def [symmetric] n1_def [symmetric]
          execId_def [symmetric] svc1_def [symmetric] payload_def [symmetric]
    by (simp add: svc1_def)
  moreover have "completed ?svc' = completed svc @ [res]" by (simp add: svc1_def)
  moreover have "queue ?svc' = None" using direct by (simp add: svc1_def)
  moreover have "\<forall>jid. getJobStatus br ?svc' jid = None"
    using direct by (simp add: getJobStatus_def svc1_def)
  ultimately show ?thesis using run by (auto simp: payload_def)
qed

lemma enqueue_durable:
  assumes "queue svc = Some q"
    and "\<And>p opts. \<exists>q'. queueAdd br q wid p opts = Inr q'"
  shows "\<exists>execId svc'. enqueue rt br svc wid inp options = Some (Inr execId, svc')"
proof -
  define given where "given = (case optJobId options of None \<Rightarrow> False | Some j \<Rightarrow> j \<noteq> [])"
  define n1 where "n1 = (if given then uuidsDrawn svc else Suc (uuidsDrawn svc))"
  define svc1 where "svc1 = svc\<lparr>uuidsDrawn := Suc n1\<rparr>"
  define payload where "payload = \<lparr>payloadWorkflowId = wid, payloadExecutionId = ''exec_'' @ uuid rt n1,
                     payloadInput = inp, payloadUserId = optUserId options,
                     payloadMode = (case optMode options of None \<Rightarrow> Manual | Some m \<Rightarrow> m)\<rparr>"
  define jo where "jo = \<lparr>jobId = (if given then the (optJobId options) else ''job_'' @ uuid rt (uuidsDrawn svc)),
       priority = optPriority options, delay = optDelay options\<rparr>"
  obtain q' where "queueAdd br q wid payload jo = Inr q'" using assms(2) by blast
  moreover have "queue svc1 = Some q" using assms(1) by (simp add: svc1_def)
  ultimately show ?thesis
    unfolding enqueue_def Let_def given_def [symmetric] n1_def [symmetric]
          svc1_def [symmetric] payload_def [symmetric] jo_def [symmetric]
    by simp
qed


text \<open>
  Claim C7. A workflow that has been registered is in the service's store under its id.
  In direct mode (no queue), for a workflow registered with the service,
  \<open>enqueue\<close> returns an execution id, and the state it returns in already holds the
  finished run: the log of completed engine runs has grown by the result of executing the
  registered workflow on the given input. The service is still without a queue, so that
  \<open>getJobStatus\<close> answers no status (\<^verbatim>\<open>null\<close>) for every job id. With a queue whose
  broker accepts the job, \<open>enqueue\<close> returns an execution id as well.
\<close>

theorem enqueue_runs_before_returning:
  "map_of (workflowStore (registerWorkflow w svc)) (workflowId w) = Some w
   \<and> queue (registerWorkflow w svc) = queue svc
   \<and> (queue svc = None \<and> map_of (workflowStore svc) wid = Some w \<longrightarrow>
      (\<exists>execId res svc'.
          enqueue rt br svc wid inp options = Some (Inr execId, svc')
          \<and> completed svc' = completed svc @ [res]
          \<and> (\<exists>u. executeWorkflow (engineEnv rt) u w inp (optUserId options)
                     (case optMode options of None \<Rightarrow> Manual | Some m \<Rightarrow> m) = Some res)
          \<and> queue svc' = None
          \<and> (\<forall>jid. getJobStatus br svc' jid = None)))
   \<and> (queue svc = Some q \<and> (\<forall>p opts. \<exists>q'. queueAdd br q wid p opts = Inr q') \<longrightarrow>
      (\<exists>execId svc'. enqueue rt br svc wid inp options = Some (Inr execId, svc')))"
proof -
  have "map_of (workflowStore (registerWorkflow w svc)) (workflowId w) = Some w
      \<and> queue (registerWorkflow w svc) = queue svc"
    by (simp add: registerWorkflow_def update_conv')
  then show ?thesis
    using enqueue_direct [of svc wid w rt br inp options]
      enqueue_durable [of svc q br wid rt inp options]
    by blast
qed

theorem enqueue_runs_before_returning_witness:
  "(\<exists>execId res svc'.
       enqueue exampleRuntime exampleBroker exampleDirectService ''wf1'' (JObj []) noOptions
         = Some (Inr execId, svc')
       \<and> completed svc' = [res]
       \<and> (\<forall>jid. getJobStatus exampleBroker svc' jid = None))
   \<and> (\<exists>execId svc'.
       enqueue exampleRuntime exampleBroker exampleDurableService ''wf1'' (JObj []) noOptions
         = Some (Inr execId, svc'))"
proof -
  have h1: "queue exampleDirectService = None
      \<and> map_of (workflowStore exampleDirectService) ''wf1'' = Some (exampleChain ACTION_SET None)"
    by (simp add: exampleDirectService_def)
  have h2: "queue exampleDurableService = Some ()
      \<and> (\<forall>p opts. \<exists>q'. queueAdd exampleBroker () ''wf1'' p opts = Inr q')"
    by (simp add: exampleDurableService_def exampleDirectService_def exampleBroker_def)
  have c: "completed exampleDirectService = []"
    by (simp add: exampleDirectService_def)
  have a: "\<exists>execId res svc'.
       enqueue exampleRuntime exampleBroker exampleDirectService ''wf1'' (JObj []) noOptions
         = Some (Inr execId, svc')
       \<and> completed svc' = [res]
       \<and> (\<forall>jid. getJobStatus exampleBroker svc' jid = None)"
    using enqueue_runs_before_returning [where svc = exampleDirectService and wid = "''wf1''"
        and w = "exampleChain ACTION_SET None" and rt = exampleRuntime and br = exampleBroker
        and inp = "JObj []" and options = noOptions] h1 c
    by (metis append_Nil)
  have b: "\<exists>execId svc'.
       enqueue exampleRuntime exampleBroker exampleDurableService ''wf1'' (JObj []) noOptions
         = Some (Inr execId, svc')"
    using enqueue_runs_before_returning [where svc = exampleDurableService and wid = "''wf1''"
        and q = "()" and rt = exampleRuntime and br = exampleBroker
        and inp = "JObj []" and options = noOptions] h2
    by blast
  show ?thesis using a b by blast
qed

text \<open>
  Claim C8. \<open>validateCron\<close> answers what the validator of the cron library answers, and
  \<open>schedule\<close> asks the same validator first: for an expression it rejects, \<open>schedule\<close>
  throws \<open>InvalidCronExpression\<close> and the service is unchanged, so that no job and no
  job id has been created. With the five-field validator modelled from the spec,
  \<^verbatim>\<open>* * * * *\<close> is valid and \<^verbatim>\<open>not a cron\<close> is not.
\<close>

theorem schedule_validates_first:
  "validateCron cv e = cv e
   \<and> (\<not> validateCron cv e \<longrightarrow>
        schedule cv uuids now svc wid e tz = (Inl (InvalidCronExpression e), svc))
   \<and> validateCron fiveFieldCron ''* * * * *''
   \<and> \<not> validateCron fiveFieldCron ''not a cron''"
proof -
  have "validateCron fiveFieldCron ''* * * * *''" by code_simp
  moreover have "\<not> validateCron fiveFieldCron ''not a cron''" by code_simp
  ultimately show ?thesis
    by (simp add: validateCron_def schedule_def Let_def update_conv')
qed

lemma schedule_registers:
  "cv e \<Longrightarrow> \<exists>jid svc' job. schedule cv uuids now svc wid e tz = (Inr jid, svc')
       \<and> map_of (jobs svc') jid = Some job \<and> cronExpression job = e
       \<and> schedWorkflowId job = wid \<and> isActive job"
  by (auto simp: schedule_def Let_def update_conv')

theorem schedule_validates_first_witness:
  "schedule fiveFieldCron showNat 1000 exampleScheduler ''wf1'' ''not a cron'' None
     = (Inl (InvalidCronExpression ''not a cron''), exampleScheduler)
   \<and> jobs (snd (schedule fiveFieldCron showNat 1000 exampleScheduler ''wf1'' ''not a cron'' None)) = []"
proof -
  have bad: "\<not> validateCron fiveFieldCron ''not a cron''" by code_simp
  have a: "schedule fiveFieldCron showNat 1000 exampleScheduler ''wf1'' ''not a cron'' None
     = (Inl (InvalidCronExpression ''not a cron''), exampleScheduler)"
    using schedule_validates_first [where cv = fiveFieldCron and e = "''not a cron''"
        and uuids = showNat and now = 1000 and svc = exampleScheduler and wid = "''wf1''"
        and tz = None] bad
    by blast
  then show ?thesis by (simp add: exampleScheduler_def)
qed

end
